theory Spec2Isabelle
  imports Main "HOL-Library.Multiset"
begin

section \<open>Errors\<close>

text \<open>
  The exceptions the two source files can raise. \<open>ValueError\<close> carries which of the
  source's messages it was raised with:
  \<^item> \<open>Redo_routing l\<close>: \<^verbatim>\<open>ValueError(f'Redo routing on layer={l}')\<close>
    (clamp/__init__.py, lines 153 and 182);
  \<^item> \<open>Empty_sequence\<close>: what Python's \<^verbatim>\<open>max\<close> and \<^verbatim>\<open>min\<close> raise on an empty list
    (lines 137, 138, 143, 144);
  \<^item> \<open>Names_required\<close>: "If module_cls is not provided, both lib_name and cell_name must
    be defined" (sch_template.py, line 124);
  \<^item> \<open>Not_supported\<close>: "Not currently supported" (sch_template.py, line 143).
  \<open>AssertionError\<close> is the failed \<^verbatim>\<open>assert\<close> of line 75, \<open>KeyError k\<close> a subscript
  of a dictionary that lacks \<open>k\<close>, \<open>IndexError\<close> a list subscript out of range.
\<close>

datatype value_error = Redo_routing int | Empty_sequence | Names_required | Not_supported

datatype error = AssertionError | KeyError string | IndexError | ValueError value_error

section \<open>SchTemplate (schematic/sch_template.py)\<close>

text \<open>
  The methods \<^verbatim>\<open>array_instance\<close>, \<^verbatim>\<open>rename_instance\<close>, \<^verbatim>\<open>replace_instance_master\<close>
  and \<^verbatim>\<open>reconnect_instance\<close> belong to the base class \<^verbatim>\<open>Module\<close> of the host framework.
  The template's effect on the schematic is the sequence of these calls, recorded in call
  order with the arguments the source passes. A call is taken to return normally.
\<close>

datatype sch_event =
    Array_instance string "string list" int int
  | Rename_instance string string
  | Replace_instance_master string string string
  | Reconnect_instance string "(string \<times> string) list"

record SchTemplate =
  prev_name :: string
  prev_pins :: "string list"
  sch_calls :: "sch_event list"

definition sch_call :: "sch_event \<Rightarrow> SchTemplate \<Rightarrow> SchTemplate" where
  "sch_call e self = self\<lparr>sch_calls := sch_calls self @ [e]\<rparr>"

text \<open>\<^verbatim>\<open>SchTemplate.__init__\<close>, lines 62 and 63.\<close>

definition SchTemplate_init :: SchTemplate where
  "SchTemplate_init = \<lparr>prev_name = ''XINST'', prev_pins = [''IN'', ''OUT'', ''VSUP''], sch_calls = []\<rparr>"

text \<open>
  \<^verbatim>\<open>SchTemplate.add_instance\<close>, lines 112 to 149. \<open>conns\<close> and \<open>module_cls\<close> default
  to \<^verbatim>\<open>None\<close>; \<^verbatim>\<open>not conns\<close> holds for \<^verbatim>\<open>None\<close> and for the empty sequence,
  \<^verbatim>\<open>not lib_name\<close> for the empty string. The result is the exception raised, if any,
  and the template after the calls made so far.
\<close>

definition add_instance ::
  "SchTemplate \<Rightarrow> string \<Rightarrow> string \<Rightarrow> string \<Rightarrow> (string \<times> string) list option \<Rightarrow> int \<Rightarrow> int
     \<Rightarrow> 'm option \<Rightarrow> error option \<times> SchTemplate" where
  "add_instance self inst_name lib_name cell_name conns dx dy module_cls =
     (let conns = (case conns of None \<Rightarrow> [] | Some cs \<Rightarrow> cs)
      in if module_cls = None \<and> (lib_name = [] \<or> cell_name = [])
         then (Some (ValueError Names_required), self)
         else
           let prev = prev_name self;
               dx = (if dx = 0 \<and> dy = 0 then 1 else dx);
               self = sch_call (Array_instance prev [''X_0'', inst_name] dx dy) self;
               self = sch_call (Rename_instance ''X_0'' prev) self
           in if module_cls \<noteq> None
              then (Some (ValueError Not_supported), self)
              else
                let self = sch_call (Replace_instance_master inst_name lib_name cell_name) self
                in if conns \<noteq> []
                   then (None, sch_call (Reconnect_instance inst_name conns) self)
                   else (None, self))"

section \<open>ClampStatic (layout/clamp/__init__.py): data\<close>

text \<open>Values of the host framework that the planner passes around.\<close>

datatype Orient2D = Orient_x | Orient_y

datatype RoundMode = LESS_EQ | GREATER_EQ

datatype Direction = LOWER | UPPER

datatype MinLenMode = MIDDLE

record BBox =
  xl :: int
  yl :: int
  xh :: int
  yh :: int

text \<open>
  \<^verbatim>\<open>TrackID(layer, index, width, num, pitch)\<close> and a wire array with its extent along the
  layer's direction. Track indices and pitches are half-integers in the host; they are
  counted here in half tracks, so that they are integers.
\<close>

record TrackID =
  tid_layer :: int
  tid_base :: int
  tid_width :: int
  tid_num :: int
  tid_pitch :: int

record WireArray =
  warr_tid :: TrackID
  warr_lower :: int
  warr_upper :: int

type_synonym lay_purp = "string \<times> string"

text \<open>
  One entry of \<^verbatim>\<open>clamp_info['rect_arr_list']\<close>. The keys read with \<^verbatim>\<open>.get\<close> are
  optional; \<^verbatim>\<open>w_unit\<close> and \<^verbatim>\<open>h_unit\<close> are subscripted only when the pitch is not 0,
  so they may be absent too.
\<close>

record rect_arr =
  edge_margin :: "(string \<rightharpoonup> int) option"
  spx :: "int option"
  spy :: "int option"
  w_unit :: "int option"
  h_unit :: "int option"
  lay_purp :: lay_purp

type_synonym ports = "string \<rightharpoonup> (string \<rightharpoonup> (int \<times> int \<times> int \<times> int) list)"

text \<open>\<^verbatim>\<open>clamp_info['types'][cell_name]\<close>.\<close>

record cell_config =
  cfg_lib_name :: string
  cfg_cell_name :: string
  cfg_size :: "int \<times> int"
  cfg_ports :: ports

text \<open>
  \<^verbatim>\<open>tech_params['clamp']\<close>. \<^verbatim>\<open>top_layer\<close> is subscripted only when the parameter
  of the same name is not given, so the key may be absent.
\<close>

record clamp_info =
  ci_top_layer :: "int option"
  used_port_layer :: int
  types :: "string \<rightharpoonup> cell_config"
  rect_arr_list :: "rect_arr list"

text \<open>The generator's parameters that \<^verbatim>\<open>draw_layout\<close> reads; \<open>top_layer\<close> defaults to \<^verbatim>\<open>None\<close>.\<close>

record params =
  lib_name :: string
  cell_name :: string
  top_layer :: "int option"

text \<open>The parameters of the \<^verbatim>\<open>BlackBoxTemplate\<close> master, lines 84 and 85.\<close>

record bb_params =
  bb_lib_name :: string
  bb_cell_name :: string
  bb_top_layer :: int
  bb_size :: "int \<times> int"
  bb_ports :: ports

text \<open>
  The host framework, as far as the planner queries it: the routing grid, the technology,
  the track manager built in \<^verbatim>\<open>__init__\<close>, the placed instance, and the values that
  the wire-drawing methods return. Each is a parameter of the model.
\<close>

record host =
  get_direction :: "int \<Rightarrow> Orient2D"
  coord_to_track :: "int \<Rightarrow> int \<Rightarrow> RoundMode \<Rightarrow> int"
  get_wire_bounds :: "int \<Rightarrow> int \<Rightarrow> int \<Rightarrow> int \<times> int"
  get_lay_purp_list :: "int \<Rightarrow> lay_purp list"
  get_width :: "int \<Rightarrow> string \<Rightarrow> int"
  get_num_wires_between :: "int \<Rightarrow> string \<Rightarrow> int \<Rightarrow> string \<Rightarrow> int \<Rightarrow> string \<Rightarrow> int"
  spread_wires :: "int \<Rightarrow> string list \<Rightarrow> int \<Rightarrow> int \<Rightarrow> string \<times> string \<Rightarrow> int list"
  bound_box :: "bb_params \<Rightarrow> BBox"
  get_all_port_pins :: "bb_params \<Rightarrow> string \<Rightarrow> int \<Rightarrow> BBox list"
  connect_bbox_to_tracks :: "Direction \<Rightarrow> lay_purp \<Rightarrow> BBox \<Rightarrow> TrackID \<Rightarrow> MinLenMode \<Rightarrow> WireArray"
  connect_wires :: "WireArray list \<Rightarrow> WireArray list"
  connect_to_tracks :: "WireArray \<Rightarrow> TrackID \<Rightarrow> MinLenMode \<Rightarrow> WireArray"

text \<open>
  The geometry the planner emits is the sequence of its calls to the methods of
  \<^verbatim>\<open>TemplateBase\<close> that draw or publish, in call order, with the arguments passed.
\<close>

datatype event =
    New_template bb_params
  | Add_instance bb_params string
  | Set_size_from_bound_box int BBox bool
  | Add_rect_array lay_purp BBox int int int int
  | Connect_bbox_to_tracks Direction lay_purp BBox TrackID MinLenMode
  | Connect_wires "WireArray list"
  | Connect_to_tracks WireArray TrackID MinLenMode
  | Add_pin string WireArray bool
  | Add_rect lay_purp BBox
  | Add_pin_primitive string int BBox bool

text \<open>The generator object: the two attributes set in \<^verbatim>\<open>__init__\<close>, what was emitted, \<^verbatim>\<open>sch_params\<close>.\<close>

record state =
  st_conn_layer :: int
  st_top_layer :: int
  emitted :: "event list"
  sch_params :: "(string \<times> string) option"

definition ClampStatic_init :: state where
  "ClampStatic_init = \<lparr>st_conn_layer = - 1, st_top_layer = - 1, emitted = [], sch_params = None\<rparr>"

definition emit :: "event list \<Rightarrow> state \<Rightarrow> state" where
  "emit es st = st\<lparr>emitted := emitted st @ es\<rparr>"

text \<open>The pins published with \<^verbatim>\<open>add_pin\<close>, and every track a wire was drawn on, in order.\<close>

fun pins :: "event list \<Rightarrow> (string \<times> WireArray \<times> bool) list" where
  "pins [] = []"
| "pins (Add_pin n w c # es) = (n, w, c) # pins es"
| "pins (_ # es) = pins es"

fun routed_tracks :: "event list \<Rightarrow> TrackID list" where
  "routed_tracks [] = []"
| "routed_tracks (Connect_bbox_to_tracks d lp b t m # es) = t # routed_tracks es"
| "routed_tracks (Connect_to_tracks w t m # es) = t # routed_tracks es"
| "routed_tracks (_ # es) = routed_tracks es"

section \<open>ClampStatic.draw_layout: placement\<close>

text \<open>
  Lines 64 to 67. \<^verbatim>\<open>not _top_layer\<close> holds when the parameter is \<^verbatim>\<open>None\<close> and when
  it is 0.
\<close>

definition resolve_top_layer :: "params \<Rightarrow> clamp_info \<Rightarrow> error + int" where
  "resolve_top_layer prm ci =
     (let tech = (case ci_top_layer ci of None \<Rightarrow> Inl (KeyError ''top_layer'') | Some t \<Rightarrow> Inr t)
      in case top_layer prm of
           None \<Rightarrow> tech
         | Some t \<Rightarrow> if t = 0 then tech else Inr t)"

text \<open>
  Lines 95 to 115, the body of the loop over \<^verbatim>\<open>rect_arr_list\<close>: the arguments of the
  call of \<^verbatim>\<open>add_rect_array\<close>, or the \<^verbatim>\<open>KeyError\<close> of a missing unit size.
\<close>

definition margin :: "(string \<rightharpoonup> int) \<Rightarrow> string \<Rightarrow> int" where
  "margin m k = (case m k of None \<Rightarrow> 0 | Some v \<Rightarrow> v)"

definition rect_array_of :: "BBox \<Rightarrow> rect_arr \<Rightarrow> error + event" where
  "rect_array_of bbox ra =
     (let em = (case edge_margin ra of None \<Rightarrow> Map.empty | Some m \<Rightarrow> m);
          rect_xl = xl bbox + margin em ''xl'';
          rect_xh = xh bbox + margin em ''xh'';
          rect_yl = yl bbox + margin em ''yl'';
          rect_yh = yh bbox + margin em ''yh'';
          sx = (case spx ra of None \<Rightarrow> 0 | Some v \<Rightarrow> v);
          sy = (case spy ra of None \<Rightarrow> 0 | Some v \<Rightarrow> v)
      in case (if sx = 0 then Inr (1, rect_xh)
               else case w_unit ra of
                      None \<Rightarrow> Inl (KeyError ''w_unit'')
                    | Some w \<Rightarrow> Inr ((rect_xh - rect_xl - w) div sx + 1, rect_xl + w)) of
           Inl e \<Rightarrow> Inl e
         | Inr (num_x, rect_xh) \<Rightarrow>
             (case (if sy = 0 then Inr (1, rect_yh)
                    else case h_unit ra of
                           None \<Rightarrow> Inl (KeyError ''h_unit'')
                         | Some hu \<Rightarrow> Inr ((rect_yh - rect_yl - hu) div sy + 1, rect_yl + hu)) of
                Inl e \<Rightarrow> Inl e
              | Inr (num_y, rect_yh) \<Rightarrow>
                  Inr (Add_rect_array (lay_purp ra)
                         \<lparr>xl = rect_xl, yl = rect_yl, xh = rect_xh, yh = rect_yh\<rparr>
                         num_x num_y sx sy)))"

text \<open>Lines 94 to 115: the loop stops at the first exception.\<close>

fun add_rect_arrays :: "BBox \<Rightarrow> rect_arr list \<Rightarrow> state \<Rightarrow> error option \<times> state" where
  "add_rect_arrays bbox [] st = (None, st)"
| "add_rect_arrays bbox (ra # ras) st =
     (case rect_array_of bbox ra of
        Inl e \<Rightarrow> (Some e, st)
      | Inr ev \<Rightarrow> add_rect_arrays bbox ras (emit [ev] st))"


text \<open>
  Lines 63 to 115, the section the source marks as placement: the resolved top layer and
  the master's parameters, or the exception. The attributes \<^verbatim>\<open>_top_layer\<close> and
  \<^verbatim>\<open>_conn_layer\<close> are set before the assertion is checked.
\<close>

definition placement :: "host \<Rightarrow> params \<Rightarrow> clamp_info \<Rightarrow> state \<Rightarrow> (error + int \<times> bb_params) \<times> state" where
  "placement h prm ci st =
     (case resolve_top_layer prm ci of
        Inl e \<Rightarrow> (Inl e, st)
      | Inr top_l \<Rightarrow>
          let st = st\<lparr>st_top_layer := top_l\<rparr>;
              port_layer = top_l;
              st = st\<lparr>st_conn_layer := port_layer\<rparr>
          in if \<not> used_port_layer ci < port_layer then (Inl AssertionError, st)
             else
               (case types ci (cell_name prm) of
                  None \<Rightarrow> (Inl (KeyError (cell_name prm)), st)
                | Some config \<Rightarrow>
                    let master = \<lparr>bb_lib_name = cfg_lib_name config, bb_cell_name = cfg_cell_name config,
                                  bb_top_layer = used_port_layer ci, bb_size = cfg_size config,
                                  bb_ports = cfg_ports config\<rparr>;
                        st = emit [New_template master] st;
                        st = emit [Add_instance master ''XINST''] st;
                        bbox = bound_box h master;
                        st = emit [Set_size_from_bound_box port_layer bbox True] st
                    in (case add_rect_arrays bbox (rect_arr_list ci) st of
                          (Some e, st) \<Rightarrow> (Inl e, st)
                        | (None, st) \<Rightarrow> (Inr (port_layer, master), st))))"

section \<open>ClampStatic.draw_layout: routing\<close>

text \<open>Lines 122 to 124.\<close>

definition vdd_idx :: nat where
  "vdd_idx = 0"

definition vss_idx :: nat where
  "vss_idx = 1"

definition num_sig :: int where
  "num_sig = 2"

text \<open>Python's \<^verbatim>\<open>max\<close> and \<^verbatim>\<open>min\<close> of a list: a \<^verbatim>\<open>ValueError\<close> on the empty one.\<close>

fun py_max :: "int list \<Rightarrow> error + int" where
  "py_max [] = Inl (ValueError Empty_sequence)"
| "py_max (x # xs) = Inr (fold max xs x)"

fun py_min :: "int list \<Rightarrow> error + int" where
  "py_min [] = Inl (ValueError Empty_sequence)"
| "py_min (x # xs) = Inr (fold min xs x)"

text \<open>
  Lines 131 to 147: the window \<^verbatim>\<open>(hm_lower, hm_upper)\<close> of the first hop, the overlap of
  all pin extents shrunk by \<^verbatim>\<open>ext\<close> at each end. The pins are chained \<^verbatim>\<open>vss_hm\<close> first.
\<close>

definition first_window :: "host \<Rightarrow> int \<Rightarrow> BBox list \<Rightarrow> BBox list \<Rightarrow> error + int \<times> int" where
  "first_window h used vdd_hm vss_hm =
     (let tr_layer = used + 1;
          w_sup_vm = get_width h tr_layer ''sup'';
          (bound_l, bound_h) = get_wire_bounds h tr_layer 0 w_sup_vm;
          ext = (bound_h - bound_l) div 2;
          (lows, highs) = (if get_direction h used = Orient_y
                           then (map yl (vss_hm @ vdd_hm), map yh (vss_hm @ vdd_hm))
                           else (map xl (vss_hm @ vdd_hm), map xh (vss_hm @ vdd_hm)))
      in case py_max lows of
           Inl e \<Rightarrow> Inl e
         | Inr hm_lower \<Rightarrow>
             (case py_min highs of
                Inl e \<Rightarrow> Inl e
              | Inr hm_upper \<Rightarrow> Inr (hm_lower + ext, hm_upper - ext)))"

text \<open>
  Lines 149 and 150, and again 178 and 179: the two ends of a window snapped to the track
  grid of \<open>layer\<close>.
\<close>

definition snap :: "host \<Rightarrow> int \<Rightarrow> int \<Rightarrow> int \<Rightarrow> int \<times> int" where
  "snap h layer lo hi = (coord_to_track h layer lo GREATER_EQ, coord_to_track h layer hi LESS_EQ)"

text \<open>Lines 151 and 180: the number of supply wires that fit between the snapped ends, plus 2.\<close>

definition hop_num :: "host \<Rightarrow> int \<Rightarrow> int \<Rightarrow> int \<Rightarrow> int" where
  "hop_num h layer lo hi =
     (let (l_idx, r_idx) = snap h layer lo hi
      in get_num_wires_between h layer ''sup'' l_idx ''sup'' r_idx ''sup'' + 2)"

text \<open>Line 155 and line 184: the spread list of track indices, for \<open>n\<close> wires per net.\<close>

definition hop_idx_list :: "host \<Rightarrow> int \<Rightarrow> int \<Rightarrow> int \<Rightarrow> int list" where
  "hop_idx_list h layer lo hi =
     (let (l_idx, r_idx) = snap h layer lo hi;
          n = hop_num h layer lo hi div num_sig
      in spread_wires h layer (replicate (nat (num_sig * n)) ''sup'') l_idx r_idx (''sup'', ''sup''))"

text \<open>
  Lines 149 to 158 and 164 for the first hop, lines 178 to 190 for the layers above, which
  repeat the same computation: from the window to the track of the VDD wires
  (\<^verbatim>\<open>plus_vm_tid\<close>, \<^verbatim>\<open>plus_tid\<close>) and the track of the VSS wires (\<^verbatim>\<open>minus_vm_tid\<close>,
  \<^verbatim>\<open>minus_tid\<close>). The subscript \<^verbatim>\<open>[1]\<close> of the spread list is evaluated first and
  raises \<^verbatim>\<open>IndexError\<close> on a list of fewer than two indices.
\<close>

definition hop_tracks :: "host \<Rightarrow> int \<Rightarrow> int \<Rightarrow> int \<Rightarrow> error + TrackID \<times> TrackID" where
  "hop_tracks h layer lo hi =
     (let num = hop_num h layer lo hi
      in if num < num_sig then Inl (ValueError (Redo_routing layer))
         else
           let n = num div num_sig;
               idx_list = hop_idx_list h layer lo hi
           in if length idx_list \<le> 1 then Inl IndexError
              else
                let p = (idx_list ! 1 - idx_list ! 0) * num_sig;
                    w_sup = get_width h layer ''sup''
                in Inr (\<lparr>tid_layer = layer, tid_base = idx_list ! vdd_idx, tid_width = w_sup,
                          tid_num = n, tid_pitch = p\<rparr>,
                        \<lparr>tid_layer = layer, tid_base = idx_list ! vss_idx, tid_width = w_sup,
                          tid_num = n, tid_pitch = p\<rparr>))"

text \<open>
  Lines 131 to 171, the first hop onto layer \<^verbatim>\<open>used_port_layer + 1\<close>: every VDD pin
  rectangle is connected to the VDD track, every VSS pin rectangle to the VSS track, and
  the first wire array that \<^verbatim>\<open>connect_wires\<close> returns for each net is kept.
\<close>

definition first_hop ::
  "host \<Rightarrow> int \<Rightarrow> lay_purp \<Rightarrow> BBox list \<Rightarrow> BBox list \<Rightarrow> state
     \<Rightarrow> (error + WireArray \<times> WireArray) \<times> state" where
  "first_hop h used hm_lp vdd_hm vss_hm st =
     (let tr_layer = used + 1
      in case first_window h used vdd_hm vss_hm of
           Inl e \<Rightarrow> (Inl e, st)
         | Inr (hm_lower, hm_upper) \<Rightarrow>
             (case hop_tracks h tr_layer hm_lower hm_upper of
                Inl e \<Rightarrow> (Inl e, st)
              | Inr (plus_vm_tid, minus_vm_tid) \<Rightarrow>
                  let plus_vm = map (\<lambda>bbox. connect_bbox_to_tracks h LOWER hm_lp bbox plus_vm_tid MIDDLE) vdd_hm;
                      st = emit (map (\<lambda>bbox. Connect_bbox_to_tracks LOWER hm_lp bbox plus_vm_tid MIDDLE) vdd_hm) st;
                      minus_vm = map (\<lambda>bbox. connect_bbox_to_tracks h LOWER hm_lp bbox minus_vm_tid MIDDLE) vss_hm;
                      st = emit (map (\<lambda>bbox. Connect_bbox_to_tracks LOWER hm_lp bbox minus_vm_tid MIDDLE) vss_hm) st;
                      st = emit [Connect_wires plus_vm] st
                  in (case connect_wires h plus_vm of
                        [] \<Rightarrow> (Inl IndexError, st)
                      | plus_port # _ \<Rightarrow>
                          let st = emit [Connect_wires minus_vm] st
                          in (case connect_wires h minus_vm of
                                [] \<Rightarrow> (Inl IndexError, st)
                              | minus_port # _ \<Rightarrow> (Inr (plus_port, minus_port), st)))))"

text \<open>Lines 176 to 191, the body of the loop over the layers above the first hop.\<close>

definition route_layer ::
  "host \<Rightarrow> int \<Rightarrow> WireArray \<times> WireArray \<Rightarrow> state \<Rightarrow> (error + WireArray \<times> WireArray) \<times> state" where
  "route_layer h layer pm st =
     (let (plus_port, minus_port) = pm;
          lower = min (warr_lower plus_port) (warr_lower minus_port);
          upper = max (warr_upper plus_port) (warr_upper minus_port)
      in case hop_tracks h layer lower upper of
           Inl e \<Rightarrow> (Inl e, st)
         | Inr (plus_tid, minus_tid) \<Rightarrow>
             let st = emit [Connect_to_tracks plus_port plus_tid MIDDLE] st;
                 plus_port = connect_to_tracks h plus_port plus_tid MIDDLE;
                 st = emit [Connect_to_tracks minus_port minus_tid MIDDLE] st;
                 minus_port = connect_to_tracks h minus_port minus_tid MIDDLE
             in (Inr (plus_port, minus_port), st))"

text \<open>Line 175: the loop over \<^verbatim>\<open>range(tr_layer + 1, port_layer + 1)\<close>, stopped by an exception.\<close>

fun route_layers ::
  "host \<Rightarrow> int list \<Rightarrow> WireArray \<times> WireArray \<Rightarrow> state \<Rightarrow> (error + WireArray \<times> WireArray) \<times> state" where
  "route_layers h [] pm st = (Inr pm, st)"
| "route_layers h (layer # layers) pm st =
     (case route_layer h layer pm st of
        (Inl e, st) \<Rightarrow> (Inl e, st)
      | (Inr pm, st) \<Rightarrow> route_layers h layers pm st)"

text \<open>Lines 131 to 191: the first hop, then the layers up to \<^verbatim>\<open>port_layer\<close>.\<close>

definition route_pins ::
  "host \<Rightarrow> int \<Rightarrow> int \<Rightarrow> lay_purp \<Rightarrow> BBox list \<Rightarrow> BBox list \<Rightarrow> state
     \<Rightarrow> (error + WireArray \<times> WireArray) \<times> state" where
  "route_pins h used port_layer hm_lp vdd_hm vss_hm st =
     (let tr_layer = used + 1
      in case first_hop h used hm_lp vdd_hm vss_hm st of
           (Inl e, st) \<Rightarrow> (Inl e, st)
         | (Inr pm, st) \<Rightarrow>
             if port_layer > tr_layer then route_layers h [tr_layer + 1..port_layer] pm st
             else (Inr pm, st))"

text \<open>
  Lines 119 to 191, the section the source marks as routing: the pins of the instance on
  \<^verbatim>\<open>used_port_layer\<close>, the layer-purpose pair of that layer, and the wires.
\<close>

definition routing ::
  "host \<Rightarrow> int \<Rightarrow> int \<Rightarrow> bb_params \<Rightarrow> state \<Rightarrow> (error + lay_purp \<times> WireArray \<times> WireArray) \<times> state" where
  "routing h used port_layer master st =
     (let vdd_hm = get_all_port_pins h master ''VDD'' used;
          vss_hm = get_all_port_pins h master ''VSS'' used
      in case get_lay_purp_list h used of
           [] \<Rightarrow> (Inl IndexError, st)
         | hm_lp # _ \<Rightarrow>
             (case route_pins h used port_layer hm_lp vdd_hm vss_hm st of
                (Inl e, st) \<Rightarrow> (Inl e, st)
              | (Inr (plus_port, minus_port), st) \<Rightarrow> (Inr (hm_lp, plus_port, minus_port), st)))"

text \<open>
  \<^verbatim>\<open>ClampStatic.draw_layout\<close>, lines 57 to 206. The label of a hidden NC pin is the
  decimal string of \<^verbatim>\<open>used_port_layer\<close>; the event keeps the number.
\<close>

definition draw_layout :: "host \<Rightarrow> params \<Rightarrow> clamp_info \<Rightarrow> state \<Rightarrow> error option \<times> state" where
  "draw_layout h prm ci st =
     (case placement h prm ci st of
        (Inl e, st) \<Rightarrow> (Some e, st)
      | (Inr (port_layer, master), st) \<Rightarrow>
          let used = used_port_layer ci
          in (case routing h used port_layer master st of
                (Inl e, st) \<Rightarrow> (Some e, st)
              | (Inr (hm_lp, plus_port, minus_port), st) \<Rightarrow>
                  let st = emit [Add_pin ''VDD'' plus_port True] st;
                      st = emit [Add_pin ''VSS'' minus_port True] st;
                      nc_hm = get_all_port_pins h master ''NC'' used;
                      st = emit (concat (map (\<lambda>bbox. [Add_rect hm_lp bbox,
                                                         Add_pin_primitive ''NC'' used bbox True]) nc_hm)) st
                  in (None, st\<lparr>sch_params := Some (lib_name prm, cell_name prm)\<rparr>)))"


section \<open>The run without its exceptions, written on the host's primitives\<close>

text \<open>
  What lines 149 to 158 and 164 (and 178 to 190) compute from a window when nothing is
  raised, written out on the host's calls alone: the low end snapped with
  \<^verbatim>\<open>GREATER_EQ\<close>, the high end with \<^verbatim>\<open>LESS_EQ\<close>, half of the guarded count as the
  number of wires per net, the spread list, and the two tracks: the VDD track at position
  0 of the list, the VSS track at position 1. The statements below compare the planner
  with it.
\<close>

definition tracks_of_window :: "host \<Rightarrow> int \<Rightarrow> int \<Rightarrow> int \<Rightarrow> TrackID \<times> TrackID" where
  "tracks_of_window h layer lo hi =
     (let l_idx = coord_to_track h layer lo GREATER_EQ;
          r_idx = coord_to_track h layer hi LESS_EQ;
          n = (get_num_wires_between h layer ''sup'' l_idx ''sup'' r_idx ''sup'' + 2) div 2;
          idx_list = spread_wires h layer (replicate (nat (2 * n)) ''sup'') l_idx r_idx (''sup'', ''sup'');
          p = (idx_list ! 1 - idx_list ! 0) * 2;
          w = get_width h layer ''sup''
      in (\<lparr>tid_layer = layer, tid_base = idx_list ! 0, tid_width = w, tid_num = n, tid_pitch = p\<rparr>,
          \<lparr>tid_layer = layer, tid_base = idx_list ! 1, tid_width = w, tid_num = n, tid_pitch = p\<rparr>))"

text \<open>
  Lines 131 to 147 for pin lists that are not both empty: from the highest low edge to
  the lowest high edge of all pin rectangles, moved inward by \<^verbatim>\<open>ext\<close> at each end.
\<close>

definition pin_window :: "host \<Rightarrow> int \<Rightarrow> BBox list \<Rightarrow> BBox list \<Rightarrow> int \<times> int" where
  "pin_window h used vdd_hm vss_hm =
     (let bounds = get_wire_bounds h (used + 1) 0 (get_width h (used + 1) ''sup'');
          ext = (snd bounds - fst bounds) div 2;
          rects = vss_hm @ vdd_hm
      in if get_direction h used = Orient_y
         then (Max (set (map yl rects)) + ext, Min (set (map yh rects)) - ext)
         else (Max (set (map xl rects)) + ext, Min (set (map xh rects)) - ext))"

text \<open>
  The VDD wire and the VSS wire that the planner holds after \<open>k\<close> layers above the first
  hop. After the first hop: the first wire that merging returns for the VDD pin
  rectangles connected to the VDD track, and the same for VSS. After each further layer:
  the VDD wire connected to that layer's VDD track, the VSS wire to its VSS track, the
  window being the lowest \<^verbatim>\<open>lower\<close> to the highest \<^verbatim>\<open>upper\<close> of the two wires below.
\<close>

fun wires_after :: "host \<Rightarrow> int \<Rightarrow> lay_purp \<Rightarrow> BBox list \<Rightarrow> BBox list \<Rightarrow> nat \<Rightarrow> WireArray \<times> WireArray" where
  "wires_after h used hm_lp vdd_hm vss_hm 0 =
     (let (lo, hi) = pin_window h used vdd_hm vss_hm;
          (vdd_tid, vss_tid) = tracks_of_window h (used + 1) lo hi
      in (hd (connect_wires h (map (\<lambda>bbox. connect_bbox_to_tracks h LOWER hm_lp bbox vdd_tid MIDDLE) vdd_hm)),
          hd (connect_wires h (map (\<lambda>bbox. connect_bbox_to_tracks h LOWER hm_lp bbox vss_tid MIDDLE) vss_hm))))"
| "wires_after h used hm_lp vdd_hm vss_hm (Suc k) =
     (let (vdd_wire, vss_wire) = wires_after h used hm_lp vdd_hm vss_hm k;
          (vdd_tid, vss_tid) = tracks_of_window h (used + 2 + int k)
                                 (min (warr_lower vdd_wire) (warr_lower vss_wire))
                                 (max (warr_upper vdd_wire) (warr_upper vss_wire))
      in (connect_to_tracks h vdd_wire vdd_tid MIDDLE, connect_to_tracks h vss_wire vss_tid MIDDLE))"

text \<open>The VDD track and the VSS track of the layer \<open>k\<close> above the first hop.\<close>

definition tracks_at :: "host \<Rightarrow> int \<Rightarrow> lay_purp \<Rightarrow> BBox list \<Rightarrow> BBox list \<Rightarrow> nat \<Rightarrow> TrackID \<times> TrackID" where
  "tracks_at h used hm_lp vdd_hm vss_hm k =
     (case k of
        0 \<Rightarrow> (let (lo, hi) = pin_window h used vdd_hm vss_hm in tracks_of_window h (used + 1) lo hi)
      | Suc j \<Rightarrow>
          (let (vdd_wire, vss_wire) = wires_after h used hm_lp vdd_hm vss_hm j
           in tracks_of_window h (used + 2 + int j)
                (min (warr_lower vdd_wire) (warr_lower vss_wire))
                (max (warr_upper vdd_wire) (warr_upper vss_wire))))"

section \<open>What the statements below speak of\<close>

text \<open>
  The window from which layer \<open>layer\<close> is routed, if the planner gets as far as routing
  that layer: for the first hop the window of the pin rectangles, for a layer above it
  the lowest \<^verbatim>\<open>lower\<close> and the highest \<^verbatim>\<open>upper\<close> of the two wires that the planner
  holds after the layers below, which is the planner run up to \<open>layer - 1\<close>.
\<close>

definition window_at ::
  "host \<Rightarrow> int \<Rightarrow> lay_purp \<Rightarrow> BBox list \<Rightarrow> BBox list \<Rightarrow> state \<Rightarrow> int \<Rightarrow> (int \<times> int) option" where
  "window_at h used hm_lp vdd_hm vss_hm st layer =
     (if layer = used + 1
      then (case first_window h used vdd_hm vss_hm of Inl e \<Rightarrow> None | Inr w \<Rightarrow> Some w)
      else if layer > used + 1
      then (case fst (route_pins h used (layer - 1) hm_lp vdd_hm vss_hm st) of
              Inl e \<Rightarrow> None
            | Inr (plus_port, minus_port) \<Rightarrow>
                Some (min (warr_lower plus_port) (warr_lower minus_port),
                      max (warr_upper plus_port) (warr_upper minus_port)))
      else None)"

text \<open>The count \<^verbatim>\<open>vm_num\<close> or \<^verbatim>\<open>_num\<close> (guard of 2 included) computed at that layer.\<close>

definition slots_at ::
  "host \<Rightarrow> int \<Rightarrow> lay_purp \<Rightarrow> BBox list \<Rightarrow> BBox list \<Rightarrow> state \<Rightarrow> int \<Rightarrow> int option" where
  "slots_at h used hm_lp vdd_hm vss_hm st layer =
     (case window_at h used hm_lp vdd_hm vss_hm st layer of
        None \<Rightarrow> None
      | Some (lo, hi) \<Rightarrow> Some (hop_num h layer lo hi))"

text \<open>
  What the names of the host's two rounding modes promise, for a map \<open>t2c\<close> from a layer
  and a track index to the coordinate of that track: \<^verbatim>\<open>LESS_EQ\<close> gives a track at or
  below the coordinate, \<^verbatim>\<open>GREATER_EQ\<close> a track at or above it.
\<close>

definition rounds_as_named :: "host \<Rightarrow> (int \<Rightarrow> int \<Rightarrow> int) \<Rightarrow> bool" where
  "rounds_as_named h t2c =
     (\<forall>layer c. t2c layer (coord_to_track h layer c LESS_EQ) \<le> c
               \<and> c \<le> t2c layer (coord_to_track h layer c GREATER_EQ))"

text \<open>
  What the planner relies on from the host's wire-drawing methods and track manager: a
  wire connected to a track lies on that track's layer, merging wires returns at least
  one wire, on a layer of the merged ones, and spreading returns one index per wire.
\<close>

definition wires_as_asked :: "host \<Rightarrow> bool" where
  "wires_as_asked h =
     ((\<forall>d lp b t m. tid_layer (warr_tid (connect_bbox_to_tracks h d lp b t m)) = tid_layer t)
      \<and> (\<forall>w t m. tid_layer (warr_tid (connect_to_tracks h w t m)) = tid_layer t)
      \<and> (\<forall>ws. ws \<noteq> [] \<longrightarrow> connect_wires h ws \<noteq> []
              \<and> (\<forall>w \<in> set (connect_wires h ws). \<exists>w' \<in> set ws. tid_layer (warr_tid w) = tid_layer (warr_tid w')))
      \<and> (\<forall>layer tags l r sp. length (spread_wires h layer tags l r sp) = length tags))"

text \<open>Merging does not depend on the order in which the wires are given.\<close>

definition merge_order_free :: "host \<Rightarrow> bool" where
  "merge_order_free h = (\<forall>ws ws'. mset ws = mset ws' \<longrightarrow> connect_wires h ws = connect_wires h ws')"

section \<open>A small technology to run the planner on\<close>

text \<open>
  A grid with a track every 10 units on every layer, even layers horizontal, supply wires
  of width 2 (so \<^verbatim>\<open>ext\<close> is 2), consecutive tracks when spreading, and a core of size
  100 by 100 with two VDD stripes, one VSS stripe and one unconnected stripe on layer 2.
\<close>

definition demo_t2c :: "int \<Rightarrow> int \<Rightarrow> int" where
  "demo_t2c layer idx = 10 * idx"

definition demo_pins :: "bb_params \<Rightarrow> string \<Rightarrow> int \<Rightarrow> BBox list" where
  "demo_pins m name layer =
     (if layer \<noteq> 2 then []
      else if name = ''VDD'' then [\<lparr>xl = 0, yl = 10, xh = 100, yh = 20\<rparr>, \<lparr>xl = 0, yl = 60, xh = 100, yh = 70\<rparr>]
      else if name = ''VSS'' then [\<lparr>xl = 0, yl = 40, xh = 100, yh = 50\<rparr>]
      else if name = ''NC'' then [\<lparr>xl = 0, yl = 80, xh = 100, yh = 90\<rparr>]
      else [])"

definition demo_merge :: "WireArray list \<Rightarrow> WireArray list" where
  "demo_merge ws =
     (if ws = [] then []
      else [\<lparr>warr_tid = \<lparr>tid_layer = Min (set (map (\<lambda>w. tid_layer (warr_tid w)) ws)),
                          tid_base = Min (set (map (\<lambda>w. tid_base (warr_tid w)) ws)),
                          tid_width = Min (set (map (\<lambda>w. tid_width (warr_tid w)) ws)),
                          tid_num = Min (set (map (\<lambda>w. tid_num (warr_tid w)) ws)),
                          tid_pitch = Min (set (map (\<lambda>w. tid_pitch (warr_tid w)) ws))\<rparr>,
             warr_lower = Min (set (map warr_lower ws)),
             warr_upper = Max (set (map warr_upper ws))\<rparr>])"

definition demo_host :: host where
  "demo_host =
     \<lparr>get_direction = (\<lambda>layer. if even layer then Orient_x else Orient_y),
      coord_to_track = (\<lambda>layer c mode. case mode of LESS_EQ \<Rightarrow> c div 10 | GREATER_EQ \<Rightarrow> - ((- c) div 10)),
      get_wire_bounds = (\<lambda>layer idx w. (10 * idx - w, 10 * idx + w)),
      get_lay_purp_list = (\<lambda>layer. [(''metal'', ''drawing'')]),
      get_width = (\<lambda>layer tag. 2),
      get_num_wires_between = (\<lambda>layer t1 l t2 r t3. r - l - 1),
      spread_wires = (\<lambda>layer tags l r sp. map (\<lambda>i. l + int i) [0..<length tags]),
      bound_box = (\<lambda>m. \<lparr>xl = 0, yl = 0, xh = fst (bb_size m), yh = snd (bb_size m)\<rparr>),
      get_all_port_pins = demo_pins,
      connect_bbox_to_tracks = (\<lambda>d lp b t m. \<lparr>warr_tid = t, warr_lower = yl b, warr_upper = yh b\<rparr>),
      connect_wires = demo_merge,
      connect_to_tracks = (\<lambda>w t m. \<lparr>warr_tid = t, warr_lower = 10 * tid_base (warr_tid w),
                                      warr_upper = 10 * (tid_base (warr_tid w)
                                                         + (tid_num (warr_tid w) - 1) * tid_pitch (warr_tid w))\<rparr>)\<rparr>"

definition demo_rect_arr :: rect_arr where
  "demo_rect_arr = \<lparr>edge_margin = Some [''xl'' \<mapsto> 2], spx = Some 0, spy = Some 30,
                     w_unit = Some 5, h_unit = Some 10, lay_purp = (''M1'', ''drawing'')\<rparr>"

definition demo_config :: cell_config where
  "demo_config = \<lparr>cfg_lib_name = ''esd'', cfg_cell_name = ''clamp_core'', cfg_size = (100, 100),
                   cfg_ports = Map.empty\<rparr>"

definition demo_info :: clamp_info where
  "demo_info = \<lparr>ci_top_layer = Some 4, used_port_layer = 2, types = [''clamp'' \<mapsto> demo_config],
                 rect_arr_list = [demo_rect_arr]\<rparr>"

definition demo_params :: params where
  "demo_params = \<lparr>lib_name = ''lib'', cell_name = ''clamp'', top_layer = None\<rparr>"

definition demo_master :: bb_params where
  "demo_master = \<lparr>bb_lib_name = ''esd'', bb_cell_name = ''clamp_core'', bb_top_layer = 2,
                   bb_size = (100, 100), bb_ports = Map.empty\<rparr>"

text \<open>The same technology with a core whose supply pins are only 8 units long.\<close>

definition narrow_pins :: "bb_params \<Rightarrow> string \<Rightarrow> int \<Rightarrow> BBox list" where
  "narrow_pins m name layer =
     (if name = ''VDD'' then [\<lparr>xl = 0, yl = 10, xh = 8, yh = 20\<rparr>]
      else if name = ''VSS'' then [\<lparr>xl = 0, yl = 40, xh = 8, yh = 50\<rparr>]
      else [])"

definition narrow_host :: host where
  "narrow_host = demo_host\<lparr>get_all_port_pins := narrow_pins\<rparr>"

section \<open>SchTemplate.add_instance\<close>

text \<open>
  C9. \<^verbatim>\<open>add_instance\<close> fails on the path of a directly given cell class: whenever
  \<open>module_cls\<close> is given, the call ends in the \<^verbatim>\<open>ValueError\<close> "Not currently supported";
  whenever \<open>module_cls\<close> is absent and \<open>lib_name\<close> or \<open>cell_name\<close> is empty, it ends in
  the \<^verbatim>\<open>ValueError\<close> that asks for both names, before any call on the schematic.
\<close>

theorem add_instance_raises:
  "(module_cls \<noteq> None \<longrightarrow>
      fst (add_instance self inst_name lib cell conns dx dy module_cls) = Some (ValueError Not_supported))
   \<and> (module_cls = None \<and> (lib = [] \<or> cell = []) \<longrightarrow>
      add_instance self inst_name lib cell conns dx dy module_cls = (Some (ValueError Names_required), self))"
  by (simp add: add_instance_def Let_def)

theorem add_instance_raises_witness:
  "fst (add_instance SchTemplate_init ''XM0'' [] [] None 0 0 (Some ())) = Some (ValueError Not_supported)
   \<and> add_instance SchTemplate_init ''XM0'' ''lib'' [] None 0 0 (None :: unit option)
       = (Some (ValueError Names_required), SchTemplate_init)"
  using add_instance_raises [of "Some ()" SchTemplate_init "''XM0''" "[]" "[]" None 0 0]
    add_instance_raises [of "None :: unit option" SchTemplate_init "''XM0''" "''lib''" "[]" None 0 0]
  by simp

text \<open>
  C10. In every call of \<^verbatim>\<open>add_instance\<close> that gets past the check of the names, the
  reference instance is arrayed into \<^verbatim>\<open>X_0\<close> and the new instance with a step
  \<open>(dx', dy)\<close> that is never \<open>(0, 0)\<close>: \<open>dx'\<close> is 1 when \<open>dx\<close> and \<open>dy\<close> are both 0, and
  \<open>dx\<close> otherwise. The next call renames \<^verbatim>\<open>X_0\<close> back to the name of the reference
  instance.
\<close>

theorem add_instance_offset:
  assumes "\<not> (module_cls = None \<and> (lib = [] \<or> cell = []))"
  shows "\<exists>dx' rest.
           sch_calls (snd (add_instance self inst_name lib cell conns dx dy module_cls))
             = sch_calls self @ Array_instance (prev_name self) [''X_0'', inst_name] dx' dy
                 # Rename_instance ''X_0'' (prev_name self) # rest
           \<and> (dx', dy) \<noteq> (0, 0)
           \<and> dx' = (if dx = 0 \<and> dy = 0 then 1 else dx)"
  using assms by (auto simp add: add_instance_def Let_def sch_call_def)

theorem add_instance_offset_witness:
  "\<exists>dx' rest.
      sch_calls (snd (add_instance SchTemplate_init ''XM0'' ''lib'' ''nmos'' None 0 0 (None :: unit option)))
        = sch_calls SchTemplate_init @ Array_instance (prev_name SchTemplate_init) [''X_0'', ''XM0''] dx' 0
            # Rename_instance ''X_0'' (prev_name SchTemplate_init) # rest
      \<and> (dx', 0 :: int) \<noteq> (0, 0)
      \<and> dx' = 1"
  using add_instance_offset [of "None :: unit option" "''lib''" "''nmos''" SchTemplate_init "''XM0''" None 0 0]
  by simp

section \<open>Events, and the exceptions of each stage\<close>

lemma pins_append: "pins (xs @ ys) = pins xs @ pins ys"
  by (induction xs rule: pins.induct) simp_all

lemma routed_tracks_append: "routed_tracks (xs @ ys) = routed_tracks xs @ routed_tracks ys"
  by (induction xs rule: routed_tracks.induct) simp_all

lemma emit_fields [simp]:
  "emitted (emit es st) = emitted st @ es"
  "st_top_layer (emit es st) = st_top_layer st"
  "st_conn_layer (emit es st) = st_conn_layer st"
  by (simp_all add: emit_def)

lemma emit_emit: "emit es (emit es' st) = emit (es' @ es) st"
  by (simp add: emit_def)

lemma emit_Nil [simp]: "emit [] st = st"
  by (simp add: emit_def)

lemma rect_array_of_error: "rect_array_of bbox ra = Inl e \<Longrightarrow> \<exists>k. e = KeyError k"
  by (auto simp: rect_array_of_def Let_def split: if_splits option.splits)

lemma rect_array_of_event:
  "rect_array_of bbox ra = Inr ev \<Longrightarrow> \<exists>lp b nx ny sx sy. ev = Add_rect_array lp b nx ny sx sy"
  by (auto simp: rect_array_of_def Let_def split: if_splits option.splits)

lemma add_rect_arrays_error:
  "add_rect_arrays bbox ras st = (Some e, st') \<Longrightarrow> \<exists>k. e = KeyError k"
  by (induction ras arbitrary: st) (auto split: sum.splits dest: rect_array_of_error)

lemma add_rect_arrays_emits:
  "\<exists>es. snd (add_rect_arrays bbox ras st) = emit es st \<and> pins es = [] \<and> routed_tracks es = []"
proof (induction ras arbitrary: st)
  case Nil
  show ?case by (simp add: exI [of _ "[]"])
next
  case (Cons ra ras)
  show ?case
  proof (cases "rect_array_of bbox ra")
    case (Inl e)
    then show ?thesis by (simp add: exI [of _ "[]"])
  next
    case (Inr ev)
    then obtain lp b nx ny sx sy where ev: "ev = Add_rect_array lp b nx ny sx sy"
      using rect_array_of_event by blast
    from Cons [of "emit [ev] st"] obtain es
      where es: "snd (add_rect_arrays bbox ras (emit [ev] st)) = emit es (emit [ev] st)"
        "pins es = []" "routed_tracks es = []" by blast
    show ?thesis
      using Inr es ev by (simp add: emit_emit exI [of _ "ev # es"])
  qed
qed

lemma first_window_error: "first_window h used vdd vss = Inl e \<Longrightarrow> e = ValueError Empty_sequence"
  by (cases "vss @ vdd")
     (auto simp: first_window_def Let_def split: prod.splits if_splits sum.splits list.splits)

lemma hop_tracks_error:
  "hop_tracks h layer lo hi = Inl e \<Longrightarrow>
     (e = ValueError (Redo_routing layer) \<and> hop_num h layer lo hi < 2)
     \<or> (e = IndexError \<and> 2 \<le> hop_num h layer lo hi)"
  by (auto simp: hop_tracks_def Let_def num_sig_def split: if_splits)

lemma hop_tracks_redo:
  "hop_num h layer lo hi < 2 \<Longrightarrow> hop_tracks h layer lo hi = Inl (ValueError (Redo_routing layer))"
  by (simp add: hop_tracks_def Let_def num_sig_def)

lemma hop_tracks_layers:
  "hop_tracks h layer lo hi = Inr (p, m) \<Longrightarrow> tid_layer p = layer \<and> tid_layer m = layer"
  by (auto simp: hop_tracks_def Let_def split: if_splits)

lemma routed_tracks_bbox:
  "routed_tracks (map (\<lambda>b. Connect_bbox_to_tracks d lp b t m) bs) = replicate (length bs) t"
  by (induction bs) simp_all

lemma pins_bbox: "pins (map (\<lambda>b. Connect_bbox_to_tracks d lp b t m) bs) = []"
  by (induction bs) simp_all

lemma first_hop_error:
  "fst (first_hop h used lp vdd vss st) = Inl e \<Longrightarrow>
     e = ValueError Empty_sequence \<or> e = IndexError \<or> e = ValueError (Redo_routing (used + 1))"
  by (auto simp: first_hop_def Let_def split: sum.splits prod.splits list.splits
           dest: first_window_error hop_tracks_error)

lemma first_hop_redo_iff:
  "fst (first_hop h used lp vdd vss st) = Inl (ValueError (Redo_routing layer)) \<longleftrightarrow>
     layer = used + 1 \<and> (\<exists>lo hi. first_window h used vdd vss = Inr (lo, hi) \<and> hop_num h (used + 1) lo hi < 2)"
  by (auto simp: first_hop_def Let_def hop_tracks_redo split: sum.splits prod.splits list.splits
           dest: first_window_error hop_tracks_error)

lemma first_hop_pins: "pins (emitted (snd (first_hop h used lp vdd vss st))) = pins (emitted st)"
  by (auto simp: first_hop_def Let_def pins_append pins_bbox split: sum.splits prod.splits list.splits)

lemma first_hop_top_layer:
  "st_top_layer (snd (first_hop h used lp vdd vss st)) = st_top_layer st"
  "st_conn_layer (snd (first_hop h used lp vdd vss st)) = st_conn_layer st"
  by (auto simp: first_hop_def Let_def split: sum.splits prod.splits list.splits)

lemma first_hop_tracks:
  "routed_tracks (emitted (snd (first_hop h used lp vdd vss st)))
     = routed_tracks (emitted st)
       @ (case first_window h used vdd vss of
            Inl e \<Rightarrow> []
          | Inr (lo, hi) \<Rightarrow>
              (case hop_tracks h (used + 1) lo hi of
                 Inl e \<Rightarrow> []
               | Inr (p, m) \<Rightarrow> replicate (length vdd) p @ replicate (length vss) m))"
  by (auto simp: first_hop_def Let_def routed_tracks_append routed_tracks_bbox
           split: sum.splits prod.splits list.splits)

lemma route_layer_redo_iff:
  "fst (route_layer h layer (p, m) st) = Inl (ValueError (Redo_routing l)) \<longleftrightarrow>
     l = layer \<and> hop_num h layer (min (warr_lower p) (warr_lower m)) (max (warr_upper p) (warr_upper m)) < 2"
  by (auto simp: route_layer_def Let_def hop_tracks_redo split: sum.splits prod.splits
           dest: hop_tracks_error)

lemma route_layer_error:
  "fst (route_layer h layer pm st) = Inl e \<Longrightarrow> e = IndexError \<or> e = ValueError (Redo_routing layer)"
  by (auto simp: route_layer_def Let_def split: sum.splits prod.splits dest: hop_tracks_error)

lemma route_layer_pins: "pins (emitted (snd (route_layer h layer pm st))) = pins (emitted st)"
  by (auto simp: route_layer_def Let_def pins_append split: sum.splits prod.splits)

lemma route_layer_top_layer:
  "st_top_layer (snd (route_layer h layer pm st)) = st_top_layer st"
  "st_conn_layer (snd (route_layer h layer pm st)) = st_conn_layer st"
  by (auto simp: route_layer_def Let_def split: sum.splits prod.splits)

lemma route_layer_tracks:
  "fst (route_layer h layer pm st) = Inr pm' \<Longrightarrow>
     map tid_layer (routed_tracks (emitted (snd (route_layer h layer pm st))))
       = map tid_layer (routed_tracks (emitted st)) @ [layer, layer]"
  by (auto simp: route_layer_def Let_def routed_tracks_append split: sum.splits prod.splits
           dest: hop_tracks_layers)

lemma route_layers_append:
  "route_layers h (xs @ ys) pm st =
     (case route_layers h xs pm st of
        (Inl e, st') \<Rightarrow> (Inl e, st')
      | (Inr pm', st') \<Rightarrow> route_layers h ys pm' st')"
  by (induction xs arbitrary: pm st) (auto split: prod.splits sum.splits)

lemma route_pins_base: "route_pins h used (used + 1) lp vdd vss st = first_hop h used lp vdd vss st"
  by (auto simp: route_pins_def Let_def split: prod.splits sum.splits)

lemma route_pins_step:
  assumes "used + 1 \<le> T"
  shows "route_pins h used (T + 1) lp vdd vss st =
           (case route_pins h used T lp vdd vss st of
              (Inl e, st') \<Rightarrow> (Inl e, st')
            | (Inr pm, st') \<Rightarrow> route_layer h (T + 1) pm st')"
proof -
  have "[used + 1 + 1..T + 1] = [used + 1 + 1..T] @ [T + 1]"
    using assms upto_rec2 [of "used + 1 + 1" "T + 1"] by simp
  then show ?thesis
    using assms
    by (auto simp: route_pins_def Let_def route_layers_append split: prod.splits sum.splits)
qed

lemma slots_at_first:
  "slots_at h used lp vdd vss st (used + 1) = Some n \<longleftrightarrow>
     (\<exists>lo hi. first_window h used vdd vss = Inr (lo, hi) \<and> n = hop_num h (used + 1) lo hi)"
  by (auto simp: slots_at_def window_at_def split: sum.splits option.splits)

lemma slots_at_above:
  "used + 1 \<le> T \<Longrightarrow>
   slots_at h used lp vdd vss st (T + 1) = Some n \<longleftrightarrow>
     (\<exists>p m. fst (route_pins h used T lp vdd vss st) = Inr (p, m)
        \<and> n = hop_num h (T + 1) (min (warr_lower p) (warr_lower m)) (max (warr_upper p) (warr_upper m)))"
  by (auto simp: slots_at_def window_at_def split: sum.splits option.splits)

lemma slots_at_below: "layer \<le> used \<Longrightarrow> slots_at h used lp vdd vss st layer = None"
  by (simp add: slots_at_def window_at_def)

lemma route_pins_step_Inl:
  "used + 1 \<le> T \<Longrightarrow> fst (route_pins h used T lp vdd vss st) = Inl e \<Longrightarrow>
     route_pins h used (T + 1) lp vdd vss st = route_pins h used T lp vdd vss st"
  by (cases "route_pins h used T lp vdd vss st") (simp add: route_pins_step)

lemma route_pins_step_Inr:
  "used + 1 \<le> T \<Longrightarrow> fst (route_pins h used T lp vdd vss st) = Inr pm \<Longrightarrow>
     route_pins h used (T + 1) lp vdd vss st
       = route_layer h (T + 1) pm (snd (route_pins h used T lp vdd vss st))"
  by (cases "route_pins h used T lp vdd vss st") (simp add: route_pins_step)

lemma route_pins_redo_iff:
  assumes "used + 1 \<le> T"
  shows "fst (route_pins h used T lp vdd vss st) = Inl (ValueError (Redo_routing layer)) \<longleftrightarrow>
           used < layer \<and> layer \<le> T \<and> (\<exists>n. slots_at h used lp vdd vss st layer = Some n \<and> n < 2)"
  using assms
proof (induction T rule: int_ge_induct)
  case base
  have "used < layer \<and> layer \<le> used + 1 \<longleftrightarrow> layer = used + 1" by auto
  then show ?case
    by (auto simp: route_pins_base first_hop_redo_iff slots_at_first)
next
  case (step T)
  show ?case
  proof (cases "fst (route_pins h used T lp vdd vss st)")
    case (Inl e)
    then have "fst (route_pins h used (T + 1) lp vdd vss st) = Inl e"
      using step.hyps by (simp add: route_pins_step_Inl)
    moreover have "\<not> (\<exists>n. slots_at h used lp vdd vss st (T + 1) = Some n \<and> n < 2)"
      using Inl step.hyps by (simp add: slots_at_above)
    ultimately show ?thesis
      using step.IH Inl by (cases "layer = T + 1") auto
  next
    case (Inr pm)
    obtain p m where pm: "pm = (p, m)" by (cases pm)
    have nxt: "fst (route_pins h used (T + 1) lp vdd vss st)
                 = fst (route_layer h (T + 1) (p, m) (snd (route_pins h used T lp vdd vss st)))"
      using Inr pm step.hyps by (simp add: route_pins_step_Inr)
    have no: "\<not> (used < layer \<and> layer \<le> T \<and> (\<exists>n. slots_at h used lp vdd vss st layer = Some n \<and> n < 2))"
      using step.IH Inr by simp
    show ?thesis
    proof (cases "layer = T + 1")
      case True
      then show ?thesis
        using nxt Inr pm step.hyps by (simp add: route_layer_redo_iff slots_at_above)
    next
      case False
      then show ?thesis
        using nxt no by (auto simp: route_layer_redo_iff)
    qed
  qed
qed

lemma route_pins_pins:
  assumes "used + 1 \<le> T"
  shows "pins (emitted (snd (route_pins h used T lp vdd vss st))) = pins (emitted st)"
  using assms
proof (induction T rule: int_ge_induct)
  case base
  show ?case by (simp add: route_pins_base first_hop_pins)
next
  case (step T)
  then show ?case
    by (cases "fst (route_pins h used T lp vdd vss st)")
       (simp_all add: route_pins_step_Inl route_pins_step_Inr route_layer_pins)
qed

lemma route_pins_low: "T \<le> used + 1 \<Longrightarrow> route_pins h used T lp vdd vss st = first_hop h used lp vdd vss st"
  by (auto simp: route_pins_def Let_def split: prod.splits sum.splits)

lemma route_pins_top_layer:
  assumes "used + 1 \<le> T"
  shows "st_top_layer (snd (route_pins h used T lp vdd vss st)) = st_top_layer st
         \<and> st_conn_layer (snd (route_pins h used T lp vdd vss st)) = st_conn_layer st"
  using assms
proof (induction T rule: int_ge_induct)
  case base
  show ?case by (simp add: route_pins_base first_hop_top_layer)
next
  case (step T)
  then show ?case
    by (cases "fst (route_pins h used T lp vdd vss st)")
       (simp_all add: route_pins_step_Inl route_pins_step_Inr route_layer_top_layer)
qed

lemma route_pins_error:
  assumes "used + 1 \<le> T" and "fst (route_pins h used T lp vdd vss st) = Inl e"
  shows "e = ValueError Empty_sequence \<or> e = IndexError \<or> (\<exists>l. e = ValueError (Redo_routing l))"
  using assms
proof (induction T rule: int_ge_induct)
  case base
  then show ?case using first_hop_error [of h used lp vdd vss st e] by (auto simp: route_pins_base)
next
  case (step T)
  show ?case
  proof (cases "fst (route_pins h used T lp vdd vss st)")
    case (Inl e')
    then show ?thesis using step by (simp add: route_pins_step_Inl)
  next
    case (Inr pm)
    then show ?thesis
      using step.prems step.hyps
        route_layer_error [of h "T + 1" pm "snd (route_pins h used T lp vdd vss st)" e]
      by (auto simp: route_pins_step_Inr)
  qed
qed

lemma placement_ok:
  assumes "placement h prm ci st = (Inr (T, master), st1)"
  shows "resolve_top_layer prm ci = Inr T" "used_port_layer ci < T"
    "pins (emitted st1) = pins (emitted st)" "routed_tracks (emitted st1) = routed_tracks (emitted st)"
    "st_top_layer st1 = T" "st_conn_layer st1 = T"
proof -
  obtain config where cfg: "types ci (cell_name prm) = Some config"
    and T: "resolve_top_layer prm ci = Inr T" and lt: "used_port_layer ci < T"
    using assms
    by (auto simp: placement_def Let_def split: sum.splits if_splits option.splits prod.splits)
  define master' where "master' = \<lparr>bb_lib_name = cfg_lib_name config, bb_cell_name = cfg_cell_name config,
     bb_top_layer = used_port_layer ci, bb_size = cfg_size config, bb_ports = cfg_ports config\<rparr>"
  define st0 where "st0 = emit [Set_size_from_bound_box T (bound_box h master') True]
     (emit [Add_instance master' ''XINST''] (emit [New_template master']
        (st\<lparr>st_top_layer := T, st_conn_layer := T\<rparr>)))"
  have st1: "st1 = snd (add_rect_arrays (bound_box h master') (rect_arr_list ci) st0)"
    using assms cfg T lt
    by (auto simp: placement_def Let_def master'_def st0_def split: option.splits prod.splits)
  obtain es where es: "st1 = emit es st0" "pins es = []" "routed_tracks es = []"
    using add_rect_arrays_emits [of "bound_box h master'" "rect_arr_list ci" st0] st1 by auto
  show "resolve_top_layer prm ci = Inr T" by (rule T)
  show "used_port_layer ci < T" by (rule lt)
  show "pins (emitted st1) = pins (emitted st)"
    using es by (simp add: st0_def pins_append)
  show "routed_tracks (emitted st1) = routed_tracks (emitted st)"
    using es by (simp add: st0_def routed_tracks_append)
  show "st_top_layer st1 = T" using es by (simp add: st0_def)
  show "st_conn_layer st1 = T" using es by (simp add: st0_def)
qed

lemma placement_error:
  assumes "placement h prm ci st = (Inl e, st1)"
  shows "(e = AssertionError \<and> (\<exists>T. resolve_top_layer prm ci = Inr T \<and> T \<le> used_port_layer ci
            \<and> st1 = st\<lparr>st_top_layer := T, st_conn_layer := T\<rparr>))
         \<or> ((\<exists>k. e = KeyError k)
             \<and> (\<forall>T. resolve_top_layer prm ci = Inr T \<longrightarrow> used_port_layer ci < T \<and> st_top_layer st1 = T
                      \<and> st_conn_layer st1 = T))"
proof (cases "resolve_top_layer prm ci")
  case (Inl e')
  then show ?thesis
    using assms by (auto simp: placement_def resolve_top_layer_def Let_def split: option.splits if_splits)
next
  case (Inr T)
  show ?thesis
  proof (cases "used_port_layer ci < T")
    case False
    then show ?thesis using assms Inr by (auto simp: placement_def Let_def)
  next
    case True
    show ?thesis
    proof (cases "types ci (cell_name prm)")
      case None
      then show ?thesis using assms Inr True by (auto simp: placement_def Let_def)
    next
      case (Some config)
      define master' where "master' = \<lparr>bb_lib_name = cfg_lib_name config, bb_cell_name = cfg_cell_name config,
         bb_top_layer = used_port_layer ci, bb_size = cfg_size config, bb_ports = cfg_ports config\<rparr>"
      define st0 where "st0 = emit [Set_size_from_bound_box T (bound_box h master') True]
         (emit [Add_instance master' ''XINST''] (emit [New_template master']
            (st\<lparr>st_top_layer := T, st_conn_layer := T\<rparr>)))"
      have r: "add_rect_arrays (bound_box h master') (rect_arr_list ci) st0 = (Some e, st1)"
        using assms Some Inr True
        by (auto simp: placement_def Let_def master'_def st0_def split: option.splits prod.splits)
      obtain es where es: "st1 = emit es st0"
        using add_rect_arrays_emits [of "bound_box h master'" "rect_arr_list ci" st0] r by auto
      have "\<exists>k. e = KeyError k" using r by (rule add_rect_arrays_error)
      then show ?thesis using Inr True es by (auto simp: st0_def)
    qed
  qed
qed

lemma draw_layout_unplaced:
  "placement h prm ci st = (Inl e, st1) \<Longrightarrow> draw_layout h prm ci st = (Some e, st1)"
  by (simp add: draw_layout_def)

lemma draw_layout_no_purpose:
  "placement h prm ci st = (Inr (T, master), st1) \<Longrightarrow> get_lay_purp_list h (used_port_layer ci) = [] \<Longrightarrow>
     draw_layout h prm ci st = (Some IndexError, st1)"
  by (simp add: draw_layout_def routing_def Let_def)

lemma draw_layout_unrouted:
  "placement h prm ci st = (Inr (T, master), st1) \<Longrightarrow> get_lay_purp_list h (used_port_layer ci) = lp # lps \<Longrightarrow>
   route_pins h (used_port_layer ci) T lp (get_all_port_pins h master ''VDD'' (used_port_layer ci))
     (get_all_port_pins h master ''VSS'' (used_port_layer ci)) st1 = (Inl e, st2) \<Longrightarrow>
     draw_layout h prm ci st = (Some e, st2)"
  by (simp add: draw_layout_def routing_def Let_def)

lemma draw_layout_routed:
  "placement h prm ci st = (Inr (T, master), st1) \<Longrightarrow> get_lay_purp_list h (used_port_layer ci) = lp # lps \<Longrightarrow>
   route_pins h (used_port_layer ci) T lp (get_all_port_pins h master ''VDD'' (used_port_layer ci))
     (get_all_port_pins h master ''VSS'' (used_port_layer ci)) st1 = (Inr (p, m), st2) \<Longrightarrow>
     draw_layout h prm ci st =
       (None, (emit (concat (map (\<lambda>bbox. [Add_rect lp bbox, Add_pin_primitive ''NC'' (used_port_layer ci) bbox True])
                                 (get_all_port_pins h master ''NC'' (used_port_layer ci))))
                (emit [Add_pin ''VSS'' m True] (emit [Add_pin ''VDD'' p True] st2)))
              \<lparr>sch_params := Some (lib_name prm, cell_name prm)\<rparr>)"
  by (simp add: draw_layout_def routing_def Let_def)

lemma nc_events:
  "pins (concat (map (\<lambda>bbox. [Add_rect lp bbox, Add_pin_primitive n l bbox hid]) bs)) = []"
  "routed_tracks (concat (map (\<lambda>bbox. [Add_rect lp bbox, Add_pin_primitive n l bbox hid]) bs)) = []"
  by (induction bs) simp_all

lemma draw_layout_placed_error:
  assumes pl: "placement h prm ci st = (Inr (T, master), st1)"
    and e: "fst (draw_layout h prm ci st) = Some e"
  shows "e = ValueError Empty_sequence \<or> e = IndexError \<or> (\<exists>l. e = ValueError (Redo_routing l))"
proof (cases "get_lay_purp_list h (used_port_layer ci)")
  case Nil
  then show ?thesis using draw_layout_no_purpose [OF pl Nil] e by simp
next
  case (Cons lp lps)
  let ?r = "route_pins h (used_port_layer ci) T lp (get_all_port_pins h master ''VDD'' (used_port_layer ci))
     (get_all_port_pins h master ''VSS'' (used_port_layer ci)) st1"
  have le: "used_port_layer ci + 1 \<le> T" using placement_ok(2) [OF pl] by simp
  obtain r st2 where r: "?r = (r, st2)" by (cases ?r)
  show ?thesis
  proof (cases r)
    case (Inl e')
    then have "draw_layout h prm ci st = (Some e', st2)"
      using draw_layout_unrouted [OF pl Cons] r by simp
    moreover have "fst ?r = Inl e'" using r Inl by simp
    ultimately show ?thesis using route_pins_error [OF le] e by auto
  next
    case (Inr pm)
    obtain p m where "pm = (p, m)" by (cases pm)
    then have "fst (draw_layout h prm ci st) = None"
      using draw_layout_routed [OF pl Cons, of p m st2] r Inr by simp
    then show ?thesis using e by simp
  qed
qed

lemma draw_layout_top_layer:
  assumes T: "resolve_top_layer prm ci = Inr T"
  shows "st_top_layer (snd (draw_layout h prm ci st)) = T \<and> st_conn_layer (snd (draw_layout h prm ci st)) = T"
proof -
  obtain r st1 where pl: "placement h prm ci st = (r, st1)" by (cases "placement h prm ci st")
  show ?thesis
  proof (cases r)
    case (Inl e)
    then have "draw_layout h prm ci st = (Some e, st1)" using pl by (simp add: draw_layout_unplaced)
    moreover have "st_top_layer st1 = T \<and> st_conn_layer st1 = T"
      using placement_error [of h prm ci st e st1] pl Inl T by auto
    ultimately show ?thesis by simp
  next
    case (Inr tm)
    obtain T' master where tm: "tm = (T', master)" by (cases tm)
    have pl': "placement h prm ci st = (Inr (T', master), st1)" using pl Inr tm by simp
    have T': "T' = T" using placement_ok(1) [OF pl'] T by simp
    have st1: "st_top_layer st1 = T \<and> st_conn_layer st1 = T"
      using placement_ok(5,6) [OF pl'] T' by simp
    have le: "used_port_layer ci + 1 \<le> T'" using placement_ok(2) [OF pl'] by simp
    show ?thesis
    proof (cases "get_lay_purp_list h (used_port_layer ci)")
      case Nil
      then show ?thesis using draw_layout_no_purpose [OF pl' Nil] st1 by simp
    next
      case (Cons lp lps)
      let ?r = "route_pins h (used_port_layer ci) T' lp (get_all_port_pins h master ''VDD'' (used_port_layer ci))
         (get_all_port_pins h master ''VSS'' (used_port_layer ci)) st1"
      obtain r2 st2 where r2: "?r = (r2, st2)" by (cases ?r)
      have st2: "st_top_layer st2 = T \<and> st_conn_layer st2 = T"
        using route_pins_top_layer [OF le, of h lp "get_all_port_pins h master ''VDD'' (used_port_layer ci)"
            "get_all_port_pins h master ''VSS'' (used_port_layer ci)" st1] r2 st1 by simp
      show ?thesis
      proof (cases r2)
        case (Inl e)
        then show ?thesis using draw_layout_unrouted [OF pl' Cons, of e st2] r2 st2 by simp
      next
        case (Inr pm)
        obtain p m where "pm = (p, m)" by (cases pm)
        then show ?thesis using draw_layout_routed [OF pl' Cons, of p m st2] r2 Inr st2 by simp
      qed
    qed
  qed
qed

section \<open>Placement\<close>

text \<open>
  C8. The planner ends in the \<^verbatim>\<open>AssertionError\<close> of line 75 exactly when the top layer
  resolves and \<^verbatim>\<open>used_port_layer\<close> is not below it; in that case nothing has been
  emitted: no master, no instance, no rectangle, no wire. When \<^verbatim>\<open>used_port_layer\<close> is
  below the resolved top layer, no exception of the run is this one.
\<close>

theorem assertion_iff:
  "(fst (draw_layout h prm ci st) = Some AssertionError
      \<longleftrightarrow> (\<exists>T. resolve_top_layer prm ci = Inr T \<and> T \<le> used_port_layer ci))
   \<and> (fst (draw_layout h prm ci st) = Some AssertionError
      \<longrightarrow> emitted (snd (draw_layout h prm ci st)) = emitted st)"
proof -
  obtain r st1 where pl: "placement h prm ci st = (r, st1)" by (cases "placement h prm ci st")
  show ?thesis
  proof (cases r)
    case (Inl e)
    then have d: "draw_layout h prm ci st = (Some e, st1)" using pl by (simp add: draw_layout_unplaced)
    show ?thesis
      using placement_error [of h prm ci st e st1] pl Inl d by auto
  next
    case (Inr tm)
    obtain T master where tm: "tm = (T, master)" by (cases tm)
    have pl': "placement h prm ci st = (Inr (T, master), st1)" using pl Inr tm by simp
    have "fst (draw_layout h prm ci st) \<noteq> Some AssertionError"
      using draw_layout_placed_error [OF pl', of AssertionError] by auto
    then show ?thesis using placement_ok(1,2) [OF pl'] by auto
  qed
qed

theorem assertion_iff_witness:
  "fst (draw_layout demo_host (demo_params\<lparr>top_layer := Some 2\<rparr>) demo_info ClampStatic_init) = Some AssertionError
   \<and> emitted (snd (draw_layout demo_host (demo_params\<lparr>top_layer := Some 2\<rparr>) demo_info ClampStatic_init)) = []
   \<and> fst (draw_layout demo_host demo_params demo_info ClampStatic_init) \<noteq> Some AssertionError"
proof -
  have "resolve_top_layer (demo_params\<lparr>top_layer := Some 2\<rparr>) demo_info = Inr 2"
    by (simp add: resolve_top_layer_def demo_params_def demo_info_def)
  moreover have "resolve_top_layer demo_params demo_info = Inr 4"
    by (simp add: resolve_top_layer_def demo_params_def demo_info_def)
  moreover have "used_port_layer demo_info = 2" by (simp add: demo_info_def)
  ultimately show ?thesis
    using assertion_iff [of demo_host "demo_params\<lparr>top_layer := Some 2\<rparr>" demo_info ClampStatic_init]
      assertion_iff [of demo_host demo_params demo_info ClampStatic_init]
    by (simp add: ClampStatic_init_def)
qed

text \<open>
  C7, as amended. A \<^verbatim>\<open>top_layer\<close> parameter that is given and is not 0 is the resolved
  top layer, stored in \<^verbatim>\<open>_top_layer\<close>. When the parameter is absent or 0, the resolved
  top layer is the technology's \<^verbatim>\<open>top_layer\<close>.
\<close>

theorem top_layer_resolved:
  "(top_layer prm = Some t \<and> t \<noteq> 0 \<longrightarrow>
      resolve_top_layer prm ci = Inr t \<and> st_top_layer (snd (draw_layout h prm ci st)) = t)
   \<and> ((top_layer prm = None \<or> top_layer prm = Some 0) \<and> ci_top_layer ci = Some d \<longrightarrow>
      resolve_top_layer prm ci = Inr d \<and> st_top_layer (snd (draw_layout h prm ci st)) = d)"
proof -
  have "resolve_top_layer prm ci = Inr t" if "top_layer prm = Some t" "t \<noteq> 0"
    using that by (simp add: resolve_top_layer_def)
  moreover have "resolve_top_layer prm ci = Inr d"
    if "top_layer prm = None \<or> top_layer prm = Some 0" "ci_top_layer ci = Some d"
    using that by (auto simp: resolve_top_layer_def)
  ultimately show ?thesis
    using draw_layout_top_layer [of prm ci _ h st] by blast
qed

theorem top_layer_resolved_witness:
  "st_top_layer (snd (draw_layout demo_host (demo_params\<lparr>top_layer := Some 3\<rparr>) demo_info ClampStatic_init)) = 3
   \<and> st_top_layer (snd (draw_layout demo_host demo_params demo_info ClampStatic_init)) = 4"
  using top_layer_resolved [of "demo_params\<lparr>top_layer := Some 3\<rparr>" 3 demo_info demo_host ClampStatic_init 4]
    top_layer_resolved [of demo_params 3 demo_info demo_host ClampStatic_init 4]
  by (simp add: demo_params_def demo_info_def)

text \<open>
  C7 as stated fails for a parameter that is given as 0: line 65 tests \<^verbatim>\<open>not _top_layer\<close>,
  which holds for 0 as it does for \<^verbatim>\<open>None\<close>, and the technology's layer 4 is taken.
\<close>

theorem top_layer_zero_counterexample:
  "top_layer (demo_params\<lparr>top_layer := Some 0\<rparr>) = Some 0
   \<and> resolve_top_layer (demo_params\<lparr>top_layer := Some 0\<rparr>) demo_info = Inr 4
   \<and> st_top_layer (snd (draw_layout demo_host (demo_params\<lparr>top_layer := Some 0\<rparr>) demo_info ClampStatic_init)) \<noteq> 0"
proof -
  have r: "resolve_top_layer (demo_params\<lparr>top_layer := Some 0\<rparr>) demo_info = Inr 4"
    by (simp add: resolve_top_layer_def demo_params_def demo_info_def)
  show ?thesis
    using r draw_layout_top_layer [OF r, of demo_host ClampStatic_init] by simp
qed

section \<open>Routing\<close>

text \<open>
  C1. Once placement has succeeded and the layer-purpose pair of \<^verbatim>\<open>used_port_layer\<close>
  is found, the planner ends in the \<^verbatim>\<open>ValueError\<close> "Redo routing on layer=l" exactly
  when \<open>l\<close> is a layer from \<^verbatim>\<open>used_port_layer + 1\<close> to the top layer that the planner
  gets to route and the count computed there, guard of 2 included, is below 2. So a count
  below 2 at a routed layer raises the error naming that layer, and with a count of at
  least 2 at every routed layer the error is not raised. When it is raised, no pin has
  been published.
\<close>

theorem redo_routing_iff:
  assumes pl: "placement h prm ci st = (Inr (port_layer, master), st1)"
    and lp: "get_lay_purp_list h (used_port_layer ci) = hm_lp # lps"
  shows "(fst (draw_layout h prm ci st) = Some (ValueError (Redo_routing layer))
            \<longleftrightarrow> used_port_layer ci < layer \<and> layer \<le> port_layer
                \<and> (\<exists>n. slots_at h (used_port_layer ci) hm_lp
                          (get_all_port_pins h master ''VDD'' (used_port_layer ci))
                          (get_all_port_pins h master ''VSS'' (used_port_layer ci)) st1 layer = Some n
                        \<and> n < 2))
         \<and> (fst (draw_layout h prm ci st) = Some (ValueError (Redo_routing layer))
            \<longrightarrow> pins (emitted (snd (draw_layout h prm ci st))) = pins (emitted st))"
proof -
  let ?used = "used_port_layer ci"
  let ?vdd = "get_all_port_pins h master ''VDD'' ?used"
  let ?vss = "get_all_port_pins h master ''VSS'' ?used"
  let ?r = "route_pins h ?used port_layer hm_lp ?vdd ?vss st1"
  have le: "?used + 1 \<le> port_layer" using placement_ok(2) [OF pl] by simp
  obtain r st2 where r: "?r = (r, st2)" by (cases ?r)
  have p2: "pins (emitted st2) = pins (emitted st)"
    using route_pins_pins [OF le, of h hm_lp ?vdd ?vss st1] r placement_ok(3) [OF pl] by simp
  have d: "fst (draw_layout h prm ci st) = Some (ValueError (Redo_routing layer))
             \<longleftrightarrow> fst ?r = Inl (ValueError (Redo_routing layer))"
    and q: "fst (draw_layout h prm ci st) = Some (ValueError (Redo_routing layer))
             \<longrightarrow> pins (emitted (snd (draw_layout h prm ci st))) = pins (emitted st)"
  proof -
    show "fst (draw_layout h prm ci st) = Some (ValueError (Redo_routing layer))
             \<longleftrightarrow> fst ?r = Inl (ValueError (Redo_routing layer))"
    proof (cases r)
      case (Inl e)
      then show ?thesis using draw_layout_unrouted [OF pl lp, of e st2] r by simp
    next
      case (Inr pm)
      obtain p m where "pm = (p, m)" by (cases pm)
      then show ?thesis using draw_layout_routed [OF pl lp, of p m st2] r Inr by simp
    qed
    show "fst (draw_layout h prm ci st) = Some (ValueError (Redo_routing layer))
             \<longrightarrow> pins (emitted (snd (draw_layout h prm ci st))) = pins (emitted st)"
    proof (cases r)
      case (Inl e)
      then show ?thesis using draw_layout_unrouted [OF pl lp, of e st2] r p2 by simp
    next
      case (Inr pm)
      obtain p m where "pm = (p, m)" by (cases pm)
      then show ?thesis using draw_layout_routed [OF pl lp, of p m st2] r Inr by simp
    qed
  qed
  show ?thesis
    using d q route_pins_redo_iff [OF le, of h hm_lp ?vdd ?vss st1 layer] by simp
qed

lemma demo_placement:
  "fst (placement narrow_host demo_params demo_info ClampStatic_init) = Inr (4, demo_master)"
  by (simp add: placement_def resolve_top_layer_def demo_params_def demo_info_def demo_config_def
      demo_master_def Let_def rect_array_of_def demo_rect_arr_def margin_def narrow_host_def demo_host_def)

theorem redo_routing_iff_witness:
  "fst (draw_layout narrow_host demo_params demo_info ClampStatic_init) = Some (ValueError (Redo_routing 3))
   \<and> pins (emitted (snd (draw_layout narrow_host demo_params demo_info ClampStatic_init))) = []"
proof -
  obtain st1 where pl: "placement narrow_host demo_params demo_info ClampStatic_init = (Inr (4, demo_master), st1)"
    using demo_placement by (cases "placement narrow_host demo_params demo_info ClampStatic_init") auto
  have lp: "get_lay_purp_list narrow_host (used_port_layer demo_info) = (''metal'', ''drawing'') # []"
    by (simp add: narrow_host_def demo_host_def)
  have s: "slots_at narrow_host (used_port_layer demo_info) (''metal'', ''drawing'')
             (get_all_port_pins narrow_host demo_master ''VDD'' (used_port_layer demo_info))
             (get_all_port_pins narrow_host demo_master ''VSS'' (used_port_layer demo_info)) st1 3 = Some 0"
    by (simp add: slots_at_def window_at_def demo_info_def first_window_def narrow_host_def demo_host_def
        narrow_pins_def hop_num_def snap_def Let_def)
  show ?thesis
    using redo_routing_iff [OF pl lp, of 3] s by (simp add: demo_info_def ClampStatic_init_def)
qed

section \<open>Rectangle arrays\<close>

lemma add_rect_arrays_events:
  "add_rect_arrays bbox ras st = (None, st') \<Longrightarrow>
     map (rect_array_of bbox) ras = map Inr (drop (length (emitted st)) (emitted st'))"
proof (induction ras arbitrary: st)
  case Nil
  then show ?case by simp
next
  case (Cons ra ras)
  then obtain ev where ev: "rect_array_of bbox ra = Inr ev"
    and rest: "add_rect_arrays bbox ras (emit [ev] st) = (None, st')"
    by (auto split: sum.splits)
  obtain es where es: "st' = emit es (emit [ev] st)"
    using add_rect_arrays_emits [of bbox ras "emit [ev] st"] rest by auto
  have "map (rect_array_of bbox) ras = map Inr (drop (length (emitted (emit [ev] st))) (emitted st'))"
    using Cons.IH [OF rest] .
  then show ?case using ev es by simp
qed

text \<open>
  C2, as amended. For a rectangle-array spec whose pitch on an axis is zero or absent,
  exactly one rectangle is emitted along that axis, with pitch 0, from the margin-adjusted
  low edge to the margin-adjusted high edge of the bounding box: the full span, whatever
  the unit size. With both pitches zero the call of \<^verbatim>\<open>add_rect_array\<close> is the one
  shown; one such call is made for every configured spec, in order.
\<close>

theorem zero_pitch_full_span:
  "((spx ra = None \<or> spx ra = Some 0) \<and> (spy ra = None \<or> spy ra = Some 0) \<longrightarrow>
      rect_array_of bbox ra =
        Inr (Add_rect_array (lay_purp ra)
               \<lparr>xl = xl bbox + margin (case edge_margin ra of None \<Rightarrow> Map.empty | Some m \<Rightarrow> m) ''xl'',
                yl = yl bbox + margin (case edge_margin ra of None \<Rightarrow> Map.empty | Some m \<Rightarrow> m) ''yl'',
                xh = xh bbox + margin (case edge_margin ra of None \<Rightarrow> Map.empty | Some m \<Rightarrow> m) ''xh'',
                yh = yh bbox + margin (case edge_margin ra of None \<Rightarrow> Map.empty | Some m \<Rightarrow> m) ''yh''\<rparr>
               1 1 0 0))
   \<and> ((spx ra = None \<or> spx ra = Some 0) \<and> rect_array_of bbox ra = Inr (Add_rect_array lp b nx ny sx sy) \<longrightarrow>
        nx = 1 \<and> sx = 0
        \<and> xl b = xl bbox + margin (case edge_margin ra of None \<Rightarrow> Map.empty | Some m \<Rightarrow> m) ''xl''
        \<and> xh b = xh bbox + margin (case edge_margin ra of None \<Rightarrow> Map.empty | Some m \<Rightarrow> m) ''xh'')
   \<and> ((spy ra = None \<or> spy ra = Some 0) \<and> rect_array_of bbox ra = Inr (Add_rect_array lp b nx ny sx sy) \<longrightarrow>
        ny = 1 \<and> sy = 0
        \<and> yl b = yl bbox + margin (case edge_margin ra of None \<Rightarrow> Map.empty | Some m \<Rightarrow> m) ''yl''
        \<and> yh b = yh bbox + margin (case edge_margin ra of None \<Rightarrow> Map.empty | Some m \<Rightarrow> m) ''yh'')
   \<and> (add_rect_arrays bbox ras st = (None, st') \<longrightarrow>
        map (rect_array_of bbox) ras = map Inr (drop (length (emitted st)) (emitted st')))"
proof -
  have "(spx ra = None \<or> spx ra = Some 0) \<and> (spy ra = None \<or> spy ra = Some 0) \<longrightarrow>
      rect_array_of bbox ra =
        Inr (Add_rect_array (lay_purp ra)
               \<lparr>xl = xl bbox + margin (case edge_margin ra of None \<Rightarrow> Map.empty | Some m \<Rightarrow> m) ''xl'',
                yl = yl bbox + margin (case edge_margin ra of None \<Rightarrow> Map.empty | Some m \<Rightarrow> m) ''yl'',
                xh = xh bbox + margin (case edge_margin ra of None \<Rightarrow> Map.empty | Some m \<Rightarrow> m) ''xh'',
                yh = yh bbox + margin (case edge_margin ra of None \<Rightarrow> Map.empty | Some m \<Rightarrow> m) ''yh''\<rparr>
               1 1 0 0)"
    by (auto simp: rect_array_of_def Let_def)
  moreover have "(spx ra = None \<or> spx ra = Some 0) \<and> rect_array_of bbox ra = Inr (Add_rect_array lp b nx ny sx sy) \<longrightarrow>
        nx = 1 \<and> sx = 0
        \<and> xl b = xl bbox + margin (case edge_margin ra of None \<Rightarrow> Map.empty | Some m \<Rightarrow> m) ''xl''
        \<and> xh b = xh bbox + margin (case edge_margin ra of None \<Rightarrow> Map.empty | Some m \<Rightarrow> m) ''xh''"
    by (auto simp: rect_array_of_def Let_def split: if_splits option.splits)
  moreover have "(spy ra = None \<or> spy ra = Some 0) \<and> rect_array_of bbox ra = Inr (Add_rect_array lp b nx ny sx sy) \<longrightarrow>
        ny = 1 \<and> sy = 0
        \<and> yl b = yl bbox + margin (case edge_margin ra of None \<Rightarrow> Map.empty | Some m \<Rightarrow> m) ''yl''
        \<and> yh b = yh bbox + margin (case edge_margin ra of None \<Rightarrow> Map.empty | Some m \<Rightarrow> m) ''yh''"
    by (auto simp: rect_array_of_def Let_def split: if_splits option.splits)
  ultimately show ?thesis
    using add_rect_arrays_events [of bbox ras st st'] by blast
qed


theorem zero_pitch_full_span_witness:
  "rect_array_of \<lparr>xl = 0, yl = 0, xh = 100, yh = 100\<rparr> (demo_rect_arr\<lparr>spy := None\<rparr>)
     = Inr (Add_rect_array (''M1'', ''drawing'') \<lparr>xl = 2, yl = 0, xh = 100, yh = 100\<rparr> 1 1 0 0)
   \<and> xh \<lparr>xl = 2, yl = 0, xh = 100, yh = 10\<rparr>
       = xh \<lparr>xl = 0, yl = 0, xh = 100, yh = 100\<rparr> + margin [''xl'' \<mapsto> 2] ''xh''
   \<and> yh \<lparr>xl = 2, yl = 0, xh = 7, yh = 100\<rparr>
       = yh \<lparr>xl = 0, yl = 0, xh = 100, yh = 100\<rparr> + margin [''xl'' \<mapsto> 2] ''yh''
   \<and> map (rect_array_of \<lparr>xl = 0, yl = 0, xh = 100, yh = 100\<rparr>) [demo_rect_arr]
       = map Inr (drop (length (emitted ClampStatic_init))
           (emitted (emit [Add_rect_array (''M1'', ''drawing'') \<lparr>xl = 2, yl = 0, xh = 100, yh = 10\<rparr> 1 4 0 30]
              ClampStatic_init)))"
proof -
  let ?bbox = "\<lparr>xl = 0, yl = 0, xh = 100, yh = 100\<rparr>"
  let ?ev = "Add_rect_array (''M1'', ''drawing'') \<lparr>xl = 2, yl = 0, xh = 100, yh = 10\<rparr> 1 4 0 30"
  let ?ra' = "demo_rect_arr\<lparr>spx := Some 20, spy := Some 0\<rparr>"
  have a: "rect_array_of ?bbox demo_rect_arr = Inr ?ev"
    by (simp add: rect_array_of_def demo_rect_arr_def margin_def Let_def)
  have b: "rect_array_of ?bbox ?ra'
       = Inr (Add_rect_array (''M1'', ''drawing'') \<lparr>xl = 2, yl = 0, xh = 7, yh = 100\<rparr> 5 1 20 0)"
    by (simp add: rect_array_of_def demo_rect_arr_def margin_def Let_def)
  have c: "add_rect_arrays ?bbox [demo_rect_arr] ClampStatic_init = (None, emit [?ev] ClampStatic_init)"
    using a by simp
  have sx: "spx demo_rect_arr = Some 0" and sy: "spy ?ra' = Some 0"
    and sn: "spx (demo_rect_arr\<lparr>spy := None\<rparr>) = Some 0" "spy (demo_rect_arr\<lparr>spy := None\<rparr>) = None"
    and em: "edge_margin demo_rect_arr = Some [''xl'' \<mapsto> 2]" "edge_margin ?ra' = Some [''xl'' \<mapsto> 2]"
       "edge_margin (demo_rect_arr\<lparr>spy := None\<rparr>) = Some [''xl'' \<mapsto> 2]"
    and lp: "lay_purp (demo_rect_arr\<lparr>spy := None\<rparr>) = (''M1'', ''drawing'')"
    by (simp_all add: demo_rect_arr_def)
  have m: "margin [''xl'' \<mapsto> (2::int)] ''xl'' = 2" "margin [''xl'' \<mapsto> (2::int)] ''xh'' = 0"
    "margin [''xl'' \<mapsto> (2::int)] ''yl'' = 0" "margin [''xl'' \<mapsto> (2::int)] ''yh'' = 0"
    by (simp_all add: margin_def)
  have 1: "rect_array_of ?bbox (demo_rect_arr\<lparr>spy := None\<rparr>)
     = Inr (Add_rect_array (''M1'', ''drawing'') \<lparr>xl = 2, yl = 0, xh = 100, yh = 100\<rparr> 1 1 0 0)"
    using zero_pitch_full_span [of "demo_rect_arr\<lparr>spy := None\<rparr>" ?bbox] sn
    unfolding em lp option.case m by simp
  have 2: "xh \<lparr>xl = 2, yl = 0, xh = 100, yh = (10::int)\<rparr> = xh ?bbox + margin [''xl'' \<mapsto> 2] ''xh''"
    using zero_pitch_full_span [of demo_rect_arr ?bbox "(''M1'', ''drawing'')"
        "\<lparr>xl = 2, yl = 0, xh = 100, yh = 10\<rparr>" 1 4 0 30] sx a
    unfolding em option.case by blast
  have 3: "yh \<lparr>xl = 2, yl = 0, xh = 7, yh = (100::int)\<rparr> = yh ?bbox + margin [''xl'' \<mapsto> 2] ''yh''"
    using zero_pitch_full_span [of ?ra' ?bbox "(''M1'', ''drawing'')"
        "\<lparr>xl = 2, yl = 0, xh = 7, yh = 100\<rparr>" 5 1 20 0] sy b
    unfolding em option.case by blast
  have 4: "map (rect_array_of ?bbox) [demo_rect_arr]
       = map Inr (drop (length (emitted ClampStatic_init)) (emitted (emit [?ev] ClampStatic_init)))"
    using zero_pitch_full_span [of _ ?bbox _ _ _ _ _ _ "[demo_rect_arr]" ClampStatic_init
        "emit [?ev] ClampStatic_init"] c
    by blast
  show ?thesis using 1 2 3 4 by blast
qed

text \<open>
  C2 as stated fails: with \<^verbatim>\<open>spx = 0\<close>, a unit width of 5 and a bounding box from 0 to
  100, the rectangle runs from the margin-adjusted low edge 2 to 100 and not to 2 + 5.
  The unit width is not read on this path.
\<close>

theorem zero_pitch_unit_counterexample:
  "spx demo_rect_arr = Some 0 \<and> w_unit demo_rect_arr = Some 5
   \<and> rect_array_of \<lparr>xl = 0, yl = 0, xh = 100, yh = 100\<rparr> demo_rect_arr
       = Inr (Add_rect_array (''M1'', ''drawing'') \<lparr>xl = 2, yl = 0, xh = 100, yh = 10\<rparr> 1 4 0 30)
   \<and> xh \<lparr>xl = 2, yl = 0, xh = 100, yh = 10\<rparr> \<noteq> xl \<lparr>xl = 2, yl = 0, xh = 100, yh = 10\<rparr> + (5 :: int)"
  by (simp add: rect_array_of_def demo_rect_arr_def margin_def Let_def)



section \<open>Snapping the first window\<close>

lemma py_max_Max: "xs \<noteq> [] \<Longrightarrow> py_max xs = Inr (Max (set xs))"
  using Max.set_eq_fold [symmetric] by (cases xs) (simp_all del: set_simps)

lemma py_min_Min: "xs \<noteq> [] \<Longrightarrow> py_min xs = Inr (Min (set xs))"
  using Min.set_eq_fold [symmetric] by (cases xs) (simp_all del: set_simps)

lemma first_window_value:
  assumes "first_window h used vdd vss = Inr (lo, hi)"
  shows "vss @ vdd \<noteq> []"
    and "lo = Max (set (map (if get_direction h used = Orient_y then yl else xl) (vss @ vdd)))
              + (snd (get_wire_bounds h (used + 1) 0 (get_width h (used + 1) ''sup''))
                 - fst (get_wire_bounds h (used + 1) 0 (get_width h (used + 1) ''sup''))) div 2"
    and "hi = Min (set (map (if get_direction h used = Orient_y then yh else xh) (vss @ vdd)))
              - (snd (get_wire_bounds h (used + 1) 0 (get_width h (used + 1) ''sup''))
                 - fst (get_wire_bounds h (used + 1) 0 (get_width h (used + 1) ''sup''))) div 2"
proof -
  show ne: "vss @ vdd \<noteq> []"
    using assms by (auto simp: first_window_def Let_def split: prod.splits if_splits)
  then have m: "\<And>f. py_max (map f (vss @ vdd)) = Inr (Max (set (map f (vss @ vdd))))"
    "\<And>f. py_min (map f (vss @ vdd)) = Inr (Min (set (map f (vss @ vdd))))"
    by (simp_all add: py_max_Max py_min_Min)
  show "lo = Max (set (map (if get_direction h used = Orient_y then yl else xl) (vss @ vdd)))
              + (snd (get_wire_bounds h (used + 1) 0 (get_width h (used + 1) ''sup''))
                 - fst (get_wire_bounds h (used + 1) 0 (get_width h (used + 1) ''sup''))) div 2"
    using assms m [of yl] m [of xl] m [of yh] m [of xh]
    by (auto simp: first_window_def Let_def split: prod.splits if_splits)
  show "hi = Min (set (map (if get_direction h used = Orient_y then yh else xh) (vss @ vdd)))
              - (snd (get_wire_bounds h (used + 1) 0 (get_width h (used + 1) ''sup''))
                 - fst (get_wire_bounds h (used + 1) 0 (get_width h (used + 1) ''sup''))) div 2"
    using assms m [of yl] m [of xl] m [of yh] m [of xh]
    by (auto simp: first_window_def Let_def split: prod.splits if_splits)
qed

lemma demo_rounds: "rounds_as_named demo_host demo_t2c"
  unfolding rounds_as_named_def demo_host_def demo_t2c_def
  by (simp add: algebra_simps) presburger

lemma demo_first_window:
  "first_window demo_host 2 (demo_pins demo_master ''VDD'' 2) (demo_pins demo_master ''VSS'' 2) = Inr (2, 98)"
  by (simp add: first_window_def demo_host_def demo_pins_def Let_def)

section \<open>The order of the layers\<close>

lemma first_hop_ok:
  assumes "fst (first_hop h used lp vdd vss st) = Inr (pp, mp)"
  shows "\<exists>lo hi p m. first_window h used vdd vss = Inr (lo, hi) \<and> hop_tracks h (used + 1) lo hi = Inr (p, m)
           \<and> connect_wires h (map (\<lambda>bbox. connect_bbox_to_tracks h LOWER lp bbox p MIDDLE) vdd) \<noteq> []
           \<and> pp = hd (connect_wires h (map (\<lambda>bbox. connect_bbox_to_tracks h LOWER lp bbox p MIDDLE) vdd))
           \<and> connect_wires h (map (\<lambda>bbox. connect_bbox_to_tracks h LOWER lp bbox m MIDDLE) vss) \<noteq> []
           \<and> mp = hd (connect_wires h (map (\<lambda>bbox. connect_bbox_to_tracks h LOWER lp bbox m MIDDLE) vss))"
  using assms
  by (auto simp: first_hop_def Let_def split: sum.splits prod.splits list.splits)

lemma route_pins_layers:
  assumes "used + 1 \<le> T" and "fst (route_pins h used T lp vdd vss st) = Inr pm"
  shows "map tid_layer (routed_tracks (emitted (snd (route_pins h used T lp vdd vss st))))
           = map tid_layer (routed_tracks (emitted st)) @ replicate (length vdd + length vss) (used + 1)
             @ concat (map (\<lambda>l. [l, l]) [used + 2..T])"
  using assms
proof (induction T arbitrary: pm rule: int_ge_induct)
  case base
  obtain pp mp where pm: "pm = (pp, mp)" by (cases pm)
  from base pm have "fst (first_hop h used lp vdd vss st) = Inr (pp, mp)"
    by (simp add: route_pins_base)
  from first_hop_ok [OF this] obtain lo hi p m
    where w: "first_window h used vdd vss = Inr (lo, hi)" "hop_tracks h (used + 1) lo hi = Inr (p, m)"
    by blast
  have "tid_layer p = used + 1" "tid_layer m = used + 1"
    using hop_tracks_layers [OF w(2)] by simp_all
  then show ?case
    using w by (simp add: route_pins_base first_hop_tracks replicate_add)
next
  case (step T)
  show ?case
  proof (cases "fst (route_pins h used T lp vdd vss st)")
    case (Inl e)
    then show ?thesis using step.prems step.hyps by (simp add: route_pins_step_Inl)
  next
    case (Inr pm')
    have u: "[used + 2..T + 1] = [used + 2..T] @ [T + 1]"
      using step.hyps upto_rec2 [of "used + 2" "T + 1"] by simp
    have "fst (route_layer h (T + 1) pm' (snd (route_pins h used T lp vdd vss st))) = Inr pm"
      using step.prems step.hyps Inr by (simp add: route_pins_step_Inr)
    from route_layer_tracks [OF this] show ?thesis
      using step.IH [OF Inr] step.hyps Inr u by (simp add: route_pins_step_Inr)
  qed
qed

lemma remdups_adj_pairs: "remdups_adj (concat (map (\<lambda>l. [l, l]) [a..b])) = [a..b]"
proof (induction a b rule: upto.induct)
  case (1 i j)
  show ?case
  proof (cases "i \<le> j")
    case False
    then show ?thesis by simp
  next
    case True
    have "remdups_adj (concat (map (\<lambda>l. [l, l]) [i + 1..j])) = [i + 1..j]" using 1 True by simp
    moreover have "[i..j] = i # [i + 1..j]" using True by (simp add: upto_rec1)
    moreover have "[i + 1..j] = [] \<or> (\<exists>ys. [i + 1..j] = (i + 1) # ys)"
      by (cases "i + 1 \<le> j") (simp_all add: upto_rec1)
    ultimately show ?thesis
      by (auto simp: remdups_adj_Cons)
  qed
qed

lemma remdups_adj_replicate_append:
  "remdups_adj (replicate (Suc n) x @ ys) = remdups_adj (x # ys)"
  by (induction n) simp_all

lemma remdups_adj_layers:
  assumes "0 < n"
  shows "remdups_adj (replicate n x @ concat (map (\<lambda>l. [l, l]) [x + 1..T])) = x # [x + 1..T]"
proof -
  obtain k where n: "n = Suc k" using assms by (cases n) auto
  have "[x + 1..T] = [] \<or> (\<exists>ys. [x + 1..T] = (x + 1) # ys)"
    by (cases "x + 1 \<le> T") (simp_all add: upto_rec1)
  then have "remdups_adj (x # concat (map (\<lambda>l. [l, l]) [x + 1..T])) = x # [x + 1..T]"
    using remdups_adj_pairs [of "x + 1" T] by (auto simp: remdups_adj_Cons)
  then show ?thesis
    unfolding n remdups_adj_replicate_append .
qed

text \<open>
  C6. In a run that completes, the layers of the tracks on which wires are drawn, in the
  order of drawing, are \<^verbatim>\<open>used_port_layer + 1\<close> once for every VDD and VSS pin
  rectangle, then each layer above it up to the top layer twice, once for VDD and once
  for VSS, in increasing order. With adjacent repetitions dropped this is the list of all
  layers from \<^verbatim>\<open>used_port_layer + 1\<close> to the top layer: none skipped, none revisited.
\<close>

theorem layers_in_order:
  assumes pl: "placement h prm ci st = (Inr (port_layer, master), st1)"
    and ok: "fst (draw_layout h prm ci st) = None"
    and fresh: "routed_tracks (emitted st) = []"
  shows "map tid_layer (routed_tracks (emitted (snd (draw_layout h prm ci st))))
           = replicate (length (get_all_port_pins h master ''VDD'' (used_port_layer ci))
                        + length (get_all_port_pins h master ''VSS'' (used_port_layer ci)))
               (used_port_layer ci + 1)
             @ concat (map (\<lambda>l. [l, l]) [used_port_layer ci + 2..port_layer])
         \<and> remdups_adj (map tid_layer (routed_tracks (emitted (snd (draw_layout h prm ci st)))))
             = [used_port_layer ci + 1..port_layer]"
proof -
  let ?used = "used_port_layer ci"
  let ?vdd = "get_all_port_pins h master ''VDD'' ?used"
  let ?vss = "get_all_port_pins h master ''VSS'' ?used"
  have le: "?used + 1 \<le> port_layer" using placement_ok(2) [OF pl] by simp
  obtain lp lps where lp: "get_lay_purp_list h ?used = lp # lps"
    using draw_layout_no_purpose [OF pl] ok by (cases "get_lay_purp_list h ?used") auto
  let ?r = "route_pins h ?used port_layer lp ?vdd ?vss st1"
  obtain r st2 where r: "?r = (r, st2)" by (cases ?r)
  obtain p m where pm: "r = Inr (p, m)"
    using draw_layout_unrouted [OF pl lp, of _ st2] r ok by (cases r) auto
  have f: "fst ?r = Inr (p, m)" using r pm by simp
  have s1: "routed_tracks (emitted st1) = []" using placement_ok(4) [OF pl] fresh by simp
  have t2: "map tid_layer (routed_tracks (emitted st2))
              = replicate (length ?vdd + length ?vss) (?used + 1)
                @ concat (map (\<lambda>l. [l, l]) [?used + 2..port_layer])"
    using route_pins_layers [OF le f] r s1 by simp
  have fin: "routed_tracks (emitted (snd (draw_layout h prm ci st))) = routed_tracks (emitted st2)"
    using draw_layout_routed [OF pl lp, of p m st2] r pm
    by (simp add: routed_tracks_append nc_events)
  have ne: "?vss @ ?vdd \<noteq> []"
  proof -
    have "\<exists>pm0. fst (first_hop h ?used lp ?vdd ?vss st1) = Inr pm0"
      using f by (auto simp: route_pins_def Let_def split: prod.splits sum.splits if_splits)
    then obtain pp mp where "fst (first_hop h ?used lp ?vdd ?vss st1) = Inr (pp, mp)" by auto
    from first_hop_ok [OF this] first_window_value(1) show ?thesis by blast
  qed
  then have pos: "0 < length ?vdd + length ?vss" by auto
  have "remdups_adj (replicate (length ?vdd + length ?vss) (?used + 1)
                     @ concat (map (\<lambda>l. [l, l]) [?used + 1 + 1..port_layer]))
          = (?used + 1) # [?used + 1 + 1..port_layer]"
    using pos by (rule remdups_adj_layers)
  moreover have "[?used + 1..port_layer] = (?used + 1) # [?used + 1 + 1..port_layer]"
    using le by (simp add: upto_rec1)
  ultimately show ?thesis using t2 fin by (simp add: add.assoc)
qed


section \<open>The run on the small technology\<close>

lemma demo_placement_fst:
  "fst (placement demo_host demo_params demo_info ClampStatic_init) = Inr (4, demo_master)"
  by (simp add: placement_def resolve_top_layer_def demo_params_def demo_info_def demo_config_def
      demo_master_def Let_def rect_array_of_def demo_rect_arr_def margin_def demo_host_def)

lemma demo_merge_vdd:
  "demo_merge [\<lparr>warr_tid = t, warr_lower = 10, warr_upper = 20\<rparr>, \<lparr>warr_tid = t, warr_lower = 60, warr_upper = 70\<rparr>]
     = [\<lparr>warr_tid = t, warr_lower = 10, warr_upper = 70\<rparr>]"
  by (simp add: demo_merge_def)

lemma demo_merge_vss:
  "demo_merge [\<lparr>warr_tid = t, warr_lower = 40, warr_upper = 50\<rparr>] = [\<lparr>warr_tid = t, warr_lower = 40, warr_upper = 50\<rparr>]"
  by (simp add: demo_merge_def)

lemma demo_hop3:
  "hop_tracks demo_host 3 2 98
     = Inr (\<lparr>tid_layer = 3, tid_base = 1, tid_width = 2, tid_num = 4, tid_pitch = 2\<rparr>,
            \<lparr>tid_layer = 3, tid_base = 2, tid_width = 2, tid_num = 4, tid_pitch = 2\<rparr>)"
  by (simp add: hop_tracks_def hop_num_def hop_idx_list_def snap_def demo_host_def num_sig_def
      vdd_idx_def vss_idx_def Let_def upt_rec)

lemma demo_hop4:
  "hop_tracks demo_host 4 10 70
     = Inr (\<lparr>tid_layer = 4, tid_base = 1, tid_width = 2, tid_num = 3, tid_pitch = 2\<rparr>,
            \<lparr>tid_layer = 4, tid_base = 2, tid_width = 2, tid_num = 3, tid_pitch = 2\<rparr>)"
  by (simp add: hop_tracks_def hop_num_def hop_idx_list_def snap_def demo_host_def num_sig_def
      vdd_idx_def vss_idx_def Let_def upt_rec)

lemma demo_first_hop:
  "fst (first_hop demo_host 2 (''metal'', ''drawing'') (demo_pins demo_master ''VDD'' 2) (demo_pins demo_master ''VSS'' 2) st)
     = Inr (\<lparr>warr_tid = \<lparr>tid_layer = 3, tid_base = 1, tid_width = 2, tid_num = 4, tid_pitch = 2\<rparr>,
              warr_lower = 10, warr_upper = 70\<rparr>,
            \<lparr>warr_tid = \<lparr>tid_layer = 3, tid_base = 2, tid_width = 2, tid_num = 4, tid_pitch = 2\<rparr>,
              warr_lower = 40, warr_upper = 50\<rparr>)"
proof -
  have c: "connect_wires demo_host = demo_merge"
    "connect_bbox_to_tracks demo_host = (\<lambda>d lp b t m. \<lparr>warr_tid = t, warr_lower = yl b, warr_upper = yh b\<rparr>)"
    by (simp_all add: demo_host_def)
  show ?thesis
    unfolding first_hop_def demo_first_window Let_def
    by (simp add: demo_hop3 c demo_pins_def demo_merge_vdd demo_merge_vss)
qed

lemma demo_route:
  "fst (route_pins demo_host 2 4 (''metal'', ''drawing'') (demo_pins demo_master ''VDD'' 2) (demo_pins demo_master ''VSS'' 2) st)
     = Inr (\<lparr>warr_tid = \<lparr>tid_layer = 4, tid_base = 1, tid_width = 2, tid_num = 3, tid_pitch = 2\<rparr>,
              warr_lower = 10, warr_upper = 70\<rparr>,
            \<lparr>warr_tid = \<lparr>tid_layer = 4, tid_base = 2, tid_width = 2, tid_num = 3, tid_pitch = 2\<rparr>,
              warr_lower = 20, warr_upper = 80\<rparr>)"
proof -
  have s: "route_pins demo_host 2 (3 + 1) (''metal'', ''drawing'') (demo_pins demo_master ''VDD'' 2) (demo_pins demo_master ''VSS'' 2) st
           = route_layer demo_host (3 + 1)
               (\<lparr>warr_tid = \<lparr>tid_layer = 3, tid_base = 1, tid_width = 2, tid_num = 4, tid_pitch = 2\<rparr>,
                  warr_lower = 10, warr_upper = 70\<rparr>,
                \<lparr>warr_tid = \<lparr>tid_layer = 3, tid_base = 2, tid_width = 2, tid_num = 4, tid_pitch = 2\<rparr>,
                  warr_lower = 40, warr_upper = 50\<rparr>)
               (snd (route_pins demo_host 2 3 (''metal'', ''drawing'') (demo_pins demo_master ''VDD'' 2) (demo_pins demo_master ''VSS'' 2) st))"
    using demo_first_hop [of st] route_pins_base [of demo_host 2]
    by (intro route_pins_step_Inr) simp_all
  have c: "connect_to_tracks demo_host = (\<lambda>w t m. \<lparr>warr_tid = t, warr_lower = 10 * tid_base (warr_tid w),
                                      warr_upper = 10 * (tid_base (warr_tid w)
                                                         + (tid_num (warr_tid w) - 1) * tid_pitch (warr_tid w))\<rparr>)"
    by (simp add: demo_host_def)
  show ?thesis
    using s by (simp add: route_layer_def Let_def demo_hop4 c)
qed

lemma demo_run:
  "\<exists>st1 st2. placement demo_host demo_params demo_info ClampStatic_init = (Inr (4, demo_master), st1)
     \<and> draw_layout demo_host demo_params demo_info ClampStatic_init =
         (None, (emit (concat (map (\<lambda>bbox. [Add_rect (''metal'', ''drawing'') bbox, Add_pin_primitive ''NC'' 2 bbox True])
                                 (demo_pins demo_master ''NC'' 2)))
                (emit [Add_pin ''VSS'' \<lparr>warr_tid = \<lparr>tid_layer = 4, tid_base = 2, tid_width = 2, tid_num = 3, tid_pitch = 2\<rparr>,
                                         warr_lower = 20, warr_upper = 80\<rparr> True]
                  (emit [Add_pin ''VDD'' \<lparr>warr_tid = \<lparr>tid_layer = 4, tid_base = 1, tid_width = 2, tid_num = 3, tid_pitch = 2\<rparr>,
                                           warr_lower = 10, warr_upper = 70\<rparr> True] st2)))
              \<lparr>sch_params := Some (''lib'', ''clamp'')\<rparr>)"
proof -
  obtain st1 where pl: "placement demo_host demo_params demo_info ClampStatic_init = (Inr (4, demo_master), st1)"
    using demo_placement_fst by (cases "placement demo_host demo_params demo_info ClampStatic_init") auto
  have u: "used_port_layer demo_info = 2" by (simp add: demo_info_def)
  have lp: "get_lay_purp_list demo_host (used_port_layer demo_info) = (''metal'', ''drawing'') # []"
    by (simp add: demo_host_def)
  have g: "get_all_port_pins demo_host = demo_pins" by (simp add: demo_host_def)
  let ?r = "route_pins demo_host 2 4 (''metal'', ''drawing'') (demo_pins demo_master ''VDD'' 2)
              (demo_pins demo_master ''VSS'' 2) st1"
  have r: "route_pins demo_host (used_port_layer demo_info) 4 (''metal'', ''drawing'')
             (get_all_port_pins demo_host demo_master ''VDD'' (used_port_layer demo_info))
             (get_all_port_pins demo_host demo_master ''VSS'' (used_port_layer demo_info)) st1
           = (Inr (\<lparr>warr_tid = \<lparr>tid_layer = 4, tid_base = 1, tid_width = 2, tid_num = 3, tid_pitch = 2\<rparr>,
                     warr_lower = 10, warr_upper = 70\<rparr>,
                   \<lparr>warr_tid = \<lparr>tid_layer = 4, tid_base = 2, tid_width = 2, tid_num = 3, tid_pitch = 2\<rparr>,
                     warr_lower = 20, warr_upper = 80\<rparr>), snd ?r)"
    unfolding u g using demo_route [of st1] by (cases ?r) simp
  show ?thesis
    using draw_layout_routed [OF pl lp r] pl unfolding u g
    by (auto simp: demo_params_def)
qed

theorem layers_in_order_witness:
  "map tid_layer (routed_tracks (emitted (snd (draw_layout demo_host demo_params demo_info ClampStatic_init))))
     = [3, 3, 3, 4, 4]
   \<and> remdups_adj (map tid_layer (routed_tracks (emitted (snd (draw_layout demo_host demo_params demo_info ClampStatic_init)))))
     = [3, 4]"
proof -
  obtain st1 st2 where pl: "placement demo_host demo_params demo_info ClampStatic_init = (Inr (4, demo_master), st1)"
    and d: "fst (draw_layout demo_host demo_params demo_info ClampStatic_init) = None"
    using demo_run by auto
  have fresh: "routed_tracks (emitted ClampStatic_init) = []" by (simp add: ClampStatic_init_def)
  have g: "get_all_port_pins demo_host = demo_pins" "used_port_layer demo_info = 2"
    by (simp_all add: demo_host_def demo_info_def)
  show ?thesis
    using layers_in_order [OF pl d fresh] unfolding g by (simp add: demo_pins_def)
qed

section \<open>The published pins\<close>

lemma first_window_ok: "vss @ vdd \<noteq> [] \<Longrightarrow> \<exists>lo hi. first_window h used vdd vss = Inr (lo, hi)"
  by (cases "vss @ vdd")
     (auto simp: first_window_def Let_def split: prod.splits if_splits sum.splits list.splits)

lemma wires_as_askedD:
  assumes "wires_as_asked h"
  shows "tid_layer (warr_tid (connect_bbox_to_tracks h d lp b t m)) = tid_layer t"
    and "tid_layer (warr_tid (connect_to_tracks h w t m)) = tid_layer t"
    and "ws \<noteq> [] \<Longrightarrow> connect_wires h ws \<noteq> []"
    and "ws \<noteq> [] \<Longrightarrow> w' \<in> set (connect_wires h ws) \<Longrightarrow>
           \<exists>v \<in> set ws. tid_layer (warr_tid w') = tid_layer (warr_tid v)"
    and "length (spread_wires h layer tags l r sp) = length tags"
proof -
  note c = assms [unfolded wires_as_asked_def]
  show "tid_layer (warr_tid (connect_bbox_to_tracks h d lp b t m)) = tid_layer t"
    by (rule c [THEN conjunct1, rule_format])
  show "tid_layer (warr_tid (connect_to_tracks h w t m)) = tid_layer t"
    by (rule c [THEN conjunct2, THEN conjunct1, rule_format])
  have m: "ws \<noteq> [] \<longrightarrow> connect_wires h ws \<noteq> []
              \<and> (\<forall>w \<in> set (connect_wires h ws). \<exists>w' \<in> set ws. tid_layer (warr_tid w) = tid_layer (warr_tid w'))"
    using c [THEN conjunct2, THEN conjunct2, THEN conjunct1] by (rule spec)
  show "ws \<noteq> [] \<Longrightarrow> connect_wires h ws \<noteq> []" using m by simp
  show "ws \<noteq> [] \<Longrightarrow> w' \<in> set (connect_wires h ws) \<Longrightarrow>
           \<exists>v \<in> set ws. tid_layer (warr_tid w') = tid_layer (warr_tid v)"
    using m by simp
  show "length (spread_wires h layer tags l r sp) = length tags"
    by (rule c [THEN conjunct2, THEN conjunct2, THEN conjunct2, rule_format])
qed

lemma merged_head:
  assumes h: "wires_as_asked h" and ne: "bs \<noteq> []" and t: "tid_layer t = layer"
  shows "\<exists>p ps. connect_wires h (map (\<lambda>bbox. connect_bbox_to_tracks h LOWER lp bbox t MIDDLE) bs) = p # ps
           \<and> tid_layer (warr_tid p) = layer"
proof -
  let ?ws = "map (\<lambda>bbox. connect_bbox_to_tracks h LOWER lp bbox t MIDDLE) bs"
  have ws: "?ws \<noteq> []" using ne by simp
  obtain p ps where p: "connect_wires h ?ws = p # ps"
    using wires_as_askedD(3) [OF h ws] by (cases "connect_wires h ?ws") simp_all
  have "p \<in> set (connect_wires h ?ws)" unfolding p by simp
  from wires_as_askedD(4) [OF h ws this]
  obtain w' where w': "w' \<in> set ?ws" "tid_layer (warr_tid p) = tid_layer (warr_tid w')" ..
  from w'(1) obtain b where "w' = connect_bbox_to_tracks h LOWER lp b t MIDDLE" by auto
  then have "tid_layer (warr_tid p) = layer" using w'(2) wires_as_askedD(1) [OF h] t by simp
  then show ?thesis using p by simp
qed

lemma hop_tracks_ok:
  assumes "wires_as_asked h" and "2 \<le> hop_num h layer lo hi"
  shows "\<exists>p m. hop_tracks h layer lo hi = Inr (p, m) \<and> tid_layer p = layer \<and> tid_layer m = layer"
proof -
  have "1 \<le> hop_num h layer lo hi div 2" using assms(2) by simp
  then have "2 \<le> nat (2 * (hop_num h layer lo hi div 2))" by simp
  moreover have "length (hop_idx_list h layer lo hi) = nat (2 * (hop_num h layer lo hi div 2))"
    by (simp add: hop_idx_list_def num_sig_def Let_def wires_as_askedD(5) [OF assms(1)] split: prod.splits)
  ultimately have "\<not> length (hop_idx_list h layer lo hi) \<le> 1" by simp
  then show ?thesis
    using assms(2) by (simp add: hop_tracks_def Let_def num_sig_def)
qed

lemma first_hop_unfold:
  assumes "first_window h used vdd vss = Inr (lo, hi)"
    and "hop_tracks h (used + 1) lo hi = Inr (tp, tm)"
    and "connect_wires h (map (\<lambda>bbox. connect_bbox_to_tracks h LOWER lp bbox tp MIDDLE) vdd) = p # ps"
    and "connect_wires h (map (\<lambda>bbox. connect_bbox_to_tracks h LOWER lp bbox tm MIDDLE) vss) = m # ms"
  shows "fst (first_hop h used lp vdd vss st) = Inr (p, m)"
  using assms by (simp add: first_hop_def Let_def)

lemma first_hop_succeeds:
  assumes h: "wires_as_asked h" and vdd: "vdd \<noteq> []" and vss: "vss \<noteq> []"
    and w: "first_window h used vdd vss = Inr (lo, hi)" and n: "2 \<le> hop_num h (used + 1) lo hi"
  shows "\<exists>p m. fst (first_hop h used lp vdd vss st) = Inr (p, m)
           \<and> tid_layer (warr_tid p) = used + 1 \<and> tid_layer (warr_tid m) = used + 1"
proof -
  from hop_tracks_ok [OF h n] obtain tp tm where t: "hop_tracks h (used + 1) lo hi = Inr (tp, tm)"
    "tid_layer tp = used + 1" "tid_layer tm = used + 1"
    by (elim exE conjE)
  from merged_head [OF h vdd t(2), of lp] obtain p ps
    where p: "connect_wires h (map (\<lambda>bbox. connect_bbox_to_tracks h LOWER lp bbox tp MIDDLE) vdd) = p # ps"
      "tid_layer (warr_tid p) = used + 1"
    by (elim exE conjE)
  from merged_head [OF h vss t(3), of lp] obtain m ms
    where m: "connect_wires h (map (\<lambda>bbox. connect_bbox_to_tracks h LOWER lp bbox tm MIDDLE) vss) = m # ms"
      "tid_layer (warr_tid m) = used + 1"
    by (elim exE conjE)
  have "fst (first_hop h used lp vdd vss st) = Inr (p, m)"
    using w t(1) p(1) m(1) by (rule first_hop_unfold)
  with p(2) m(2) show ?thesis by (intro exI conjI)
qed

lemma route_layer_succeeds:
  assumes h: "wires_as_asked h"
    and n: "2 \<le> hop_num h layer (min (warr_lower p) (warr_lower m)) (max (warr_upper p) (warr_upper m))"
  shows "\<exists>p' m'. fst (route_layer h layer (p, m) st) = Inr (p', m')
           \<and> tid_layer (warr_tid p') = layer \<and> tid_layer (warr_tid m') = layer"
proof -
  from hop_tracks_ok [OF h n] obtain tp tm
    where t: "hop_tracks h layer (min (warr_lower p) (warr_lower m)) (max (warr_upper p) (warr_upper m)) = Inr (tp, tm)"
      "tid_layer tp = layer" "tid_layer tm = layer"
    by (elim exE conjE)
  show ?thesis
    using t by (simp add: route_layer_def Let_def wires_as_askedD(2) [OF h])
qed

lemma route_pins_succeeds:
  assumes le: "used + 1 \<le> T" and h: "wires_as_asked h" and vdd: "vdd \<noteq> []" and vss: "vss \<noteq> []"
    and feasible: "\<forall>l n. l \<le> T \<longrightarrow> slots_at h used lp vdd vss st l = Some n \<longrightarrow> 2 \<le> n"
  shows "\<exists>p m. fst (route_pins h used T lp vdd vss st) = Inr (p, m)
           \<and> tid_layer (warr_tid p) = T \<and> tid_layer (warr_tid m) = T"
  using le feasible
proof (induction T rule: int_ge_induct)
  case base
  obtain lo hi where w: "first_window h used vdd vss = Inr (lo, hi)"
    using first_window_ok [of vss vdd h used] vdd by auto
  then have "slots_at h used lp vdd vss st (used + 1) = Some (hop_num h (used + 1) lo hi)"
    by (simp add: slots_at_first)
  then have "2 \<le> hop_num h (used + 1) lo hi" using base by blast
  from first_hop_succeeds [OF h vdd vss w this] show ?case by (simp add: route_pins_base)
next
  case (step T)
  have "\<forall>l n. l \<le> T \<longrightarrow> slots_at h used lp vdd vss st l = Some n \<longrightarrow> 2 \<le> n"
  proof (intro allI impI)
    fix l n
    assume "l \<le> T" and s: "slots_at h used lp vdd vss st l = Some n"
    then have "l \<le> T + 1" by simp
    with step.prems s show "2 \<le> n" by blast
  qed
  from step.IH [OF this] obtain p m where pm: "fst (route_pins h used T lp vdd vss st) = Inr (p, m)"
    by blast
  have "slots_at h used lp vdd vss st (T + 1)
          = Some (hop_num h (T + 1) (min (warr_lower p) (warr_lower m)) (max (warr_upper p) (warr_upper m)))"
    using step.hyps pm by (simp add: slots_at_above)
  then have "2 \<le> hop_num h (T + 1) (min (warr_lower p) (warr_lower m)) (max (warr_upper p) (warr_upper m))"
    using step.prems by blast
  from route_layer_succeeds [OF h this] show ?case
    using step.hyps pm by (simp add: route_pins_step_Inr)
qed

lemma demo_wires: "wires_as_asked demo_host"
proof -
  have a: "\<And>ws. ws \<noteq> [] \<Longrightarrow> demo_merge ws \<noteq> []
            \<and> (\<forall>w \<in> set (demo_merge ws). \<exists>w' \<in> set ws. tid_layer (warr_tid w) = tid_layer (warr_tid w'))"
  proof -
    fix ws :: "WireArray list"
    assume ne: "ws \<noteq> []"
    let ?L = "set (map (\<lambda>w. tid_layer (warr_tid w)) ws)"
    have "Min ?L \<in> ?L" using ne by (intro Min_in) simp_all
    then obtain w' where "w' \<in> set ws" "Min ?L = tid_layer (warr_tid w')" by auto
    then show "demo_merge ws \<noteq> []
            \<and> (\<forall>w \<in> set (demo_merge ws). \<exists>w' \<in> set ws. tid_layer (warr_tid w) = tid_layer (warr_tid w'))"
      using ne by (auto simp: demo_merge_def)
  qed
  have c: "connect_wires demo_host = demo_merge" by (simp add: demo_host_def)
  show ?thesis
    unfolding wires_as_asked_def c
    using a by (simp add: demo_host_def)
qed

lemma demo_slots:
  "slots_at demo_host 2 (''metal'', ''drawing'') (demo_pins demo_master ''VDD'' 2) (demo_pins demo_master ''VSS'' 2) st 3 = Some 9"
  "slots_at demo_host 2 (''metal'', ''drawing'') (demo_pins demo_master ''VDD'' 2) (demo_pins demo_master ''VSS'' 2) st 4 = Some 7"
proof -
  show "slots_at demo_host 2 (''metal'', ''drawing'') (demo_pins demo_master ''VDD'' 2) (demo_pins demo_master ''VSS'' 2) st 3 = Some 9"
    using demo_first_window
    by (simp add: slots_at_def window_at_def hop_num_def snap_def demo_host_def)
  have "fst (route_pins demo_host 2 (2 + 1) (''metal'', ''drawing'') (demo_pins demo_master ''VDD'' 2) (demo_pins demo_master ''VSS'' 2) st)
     = Inr (\<lparr>warr_tid = \<lparr>tid_layer = 3, tid_base = 1, tid_width = 2, tid_num = 4, tid_pitch = 2\<rparr>,
              warr_lower = 10, warr_upper = 70\<rparr>,
            \<lparr>warr_tid = \<lparr>tid_layer = 3, tid_base = 2, tid_width = 2, tid_num = 4, tid_pitch = 2\<rparr>,
              warr_lower = 40, warr_upper = 50\<rparr>)"
    unfolding route_pins_base by (rule demo_first_hop)
  then show "slots_at demo_host 2 (''metal'', ''drawing'') (demo_pins demo_master ''VDD'' 2) (demo_pins demo_master ''VSS'' 2) st 4 = Some 7"
    by (simp add: slots_at_def window_at_def hop_num_def snap_def demo_host_def)
qed

section \<open>The order of the nets\<close>

lemma py_max_mset: "mset xs = mset ys \<Longrightarrow> py_max xs = py_max ys"
proof (cases "xs = []")
  case True
  assume "mset xs = mset ys"
  with True have "ys = []" by simp
  with True show ?thesis by simp
next
  case False
  assume m: "mset xs = mset ys"
  with False have "ys \<noteq> []" by auto
  moreover have "set xs = set ys" using m by (rule mset_eq_setD)
  ultimately show ?thesis using False by (simp add: py_max_Max)
qed

lemma py_min_mset: "mset xs = mset ys \<Longrightarrow> py_min xs = py_min ys"
proof (cases "xs = []")
  case True
  assume "mset xs = mset ys"
  with True have "ys = []" by simp
  with True show ?thesis by simp
next
  case False
  assume m: "mset xs = mset ys"
  with False have "ys \<noteq> []" by auto
  moreover have "set xs = set ys" using m by (rule mset_eq_setD)
  ultimately show ?thesis using False by (simp add: py_min_Min)
qed

lemma first_window_mset:
  assumes "mset vdd' = mset vdd" and "mset vss' = mset vss"
  shows "first_window h used vdd' vss' = first_window h used vdd vss"
proof -
  have m: "\<And>f :: BBox \<Rightarrow> int. mset (map f (vss' @ vdd')) = mset (map f (vss @ vdd))"
    using assms by simp
  have a: "py_max (map yl (vss' @ vdd')) = py_max (map yl (vss @ vdd))"
    "py_max (map xl (vss' @ vdd')) = py_max (map xl (vss @ vdd))"
    by (rule py_max_mset [OF m])+
  have b: "py_min (map yh (vss' @ vdd')) = py_min (map yh (vss @ vdd))"
    "py_min (map xh (vss' @ vdd')) = py_min (map xh (vss @ vdd))"
    by (rule py_min_mset [OF m])+
  show ?thesis
  proof (cases "get_direction h used = Orient_y")
    case True
    then show ?thesis unfolding first_window_def Let_def by (simp add: a b del: map_append cong: sum.case_cong prod.case_cong)
  next
    case False
    then show ?thesis unfolding first_window_def Let_def by (simp add: a b del: map_append cong: sum.case_cong prod.case_cong)
  qed
qed

lemma first_hop_mset:
  assumes v: "mset vdd' = mset vdd" and s: "mset vss' = mset vss" and h: "merge_order_free h"
  shows "fst (first_hop h used lp vdd' vss' st) = fst (first_hop h used lp vdd vss st)"
    and "routed_tracks (emitted (snd (first_hop h used lp vdd' vss' st)))
           = routed_tracks (emitted (snd (first_hop h used lp vdd vss st)))"
proof -
  have w: "first_window h used vdd' vss' = first_window h used vdd vss"
    using v s by (rule first_window_mset)
  have len: "length vdd' = length vdd" "length vss' = length vss"
    using v s by (auto dest: mset_eq_length)
  show "routed_tracks (emitted (snd (first_hop h used lp vdd' vss' st)))
           = routed_tracks (emitted (snd (first_hop h used lp vdd vss st)))"
    by (simp only: first_hop_tracks w len)
  have m: "\<And>ws ws'. mset ws = mset ws' \<Longrightarrow> connect_wires h ws = connect_wires h ws'"
    using h unfolding merge_order_free_def by blast
  have cv: "\<And>t. connect_wires h (map (\<lambda>bbox. connect_bbox_to_tracks h LOWER lp bbox t MIDDLE) vdd')
                 = connect_wires h (map (\<lambda>bbox. connect_bbox_to_tracks h LOWER lp bbox t MIDDLE) vdd)"
    using v by (intro m) simp
  have cs: "\<And>t. connect_wires h (map (\<lambda>bbox. connect_bbox_to_tracks h LOWER lp bbox t MIDDLE) vss')
                 = connect_wires h (map (\<lambda>bbox. connect_bbox_to_tracks h LOWER lp bbox t MIDDLE) vss)"
    using s by (intro m) simp
  show "fst (first_hop h used lp vdd' vss' st) = fst (first_hop h used lp vdd vss st)"
    unfolding first_hop_def Let_def w cv cs
    by (simp split: sum.splits prod.splits list.splits)
qed

lemma route_layer_state:
  assumes "routed_tracks (emitted st') = routed_tracks (emitted st)"
  shows "fst (route_layer h layer pm st') = fst (route_layer h layer pm st)"
    and "routed_tracks (emitted (snd (route_layer h layer pm st')))
           = routed_tracks (emitted (snd (route_layer h layer pm st)))"
  using assms
  by (auto simp: route_layer_def Let_def routed_tracks_append split: sum.splits prod.splits)

lemma route_pins_mset:
  assumes v: "mset vdd' = mset vdd" and s: "mset vss' = mset vss" and h: "merge_order_free h"
    and le: "used + 1 \<le> T"
  shows "fst (route_pins h used T lp vdd' vss' st) = fst (route_pins h used T lp vdd vss st)
         \<and> routed_tracks (emitted (snd (route_pins h used T lp vdd' vss' st)))
             = routed_tracks (emitted (snd (route_pins h used T lp vdd vss st)))"
  using le
proof (induction T rule: int_ge_induct)
  case base
  show ?case unfolding route_pins_base using first_hop_mset [OF v s h] by simp
next
  case (step T)
  show ?case
  proof (cases "fst (route_pins h used T lp vdd vss st)")
    case (Inl e)
    moreover from Inl step.IH have "fst (route_pins h used T lp vdd' vss' st) = Inl e" by simp
    ultimately show ?thesis
      using step.IH step.hyps by (simp add: route_pins_step_Inl)
  next
    case (Inr pm)
    moreover from Inr step.IH have "fst (route_pins h used T lp vdd' vss' st) = Inr pm" by simp
    ultimately show ?thesis
      using step.IH step.hyps route_layer_state [of "snd (route_pins h used T lp vdd' vss' st)"
          "snd (route_pins h used T lp vdd vss st)" h "T + 1" pm]
      by (simp add: route_pins_step_Inr)
  qed
qed

lemma route_layer_ok:
  assumes "fst (route_layer h layer (pp, mp) st) = Inr (pp', mp')"
  shows "\<exists>p m. hop_tracks h layer (min (warr_lower pp) (warr_lower mp)) (max (warr_upper pp) (warr_upper mp)) = Inr (p, m)
           \<and> pp' = connect_to_tracks h pp p MIDDLE \<and> mp' = connect_to_tracks h mp m MIDDLE"
  using assms by (auto simp: route_layer_def Let_def split: sum.splits prod.splits)

lemma hop_tracks_positions:
  "hop_tracks h layer lo hi = Inr (p, m) \<Longrightarrow>
     tid_base p = hop_idx_list h layer lo hi ! 0 \<and> tid_base m = hop_idx_list h layer lo hi ! 1
     \<and> 2 \<le> length (hop_idx_list h layer lo hi)"
  by (auto simp: hop_tracks_def Let_def vdd_idx_def vss_idx_def split: if_splits)

section \<open>The planner against the run written out\<close>

lemma hop_tracks_written_out:
  "hop_tracks h layer lo hi = Inr (p, m) \<Longrightarrow> (p, m) = tracks_of_window h layer lo hi"
  by (auto simp: hop_tracks_def hop_num_def hop_idx_list_def snap_def tracks_of_window_def Let_def
      num_sig_def vdd_idx_def vss_idx_def mult.commute split: if_splits)

lemma first_window_written_out:
  assumes "first_window h used vdd vss = Inr (lo, hi)"
  shows "(lo, hi) = pin_window h used vdd vss"
  using first_window_value(2,3) [OF assms]
  by (simp add: pin_window_def Let_def)

lemma first_hop_written_out:
  assumes "fst (first_hop h used lp vdd vss st) = Inr pm"
  shows "pm = wires_after h used lp vdd vss 0"
    and "routed_tracks (emitted (snd (first_hop h used lp vdd vss st)))
           = routed_tracks (emitted st)
             @ replicate (length vdd) (fst (tracks_at h used lp vdd vss 0))
             @ replicate (length vss) (snd (tracks_at h used lp vdd vss 0))"
proof -
  obtain pp mp where pm: "pm = (pp, mp)" by (cases pm)
  from first_hop_ok [OF assms [unfolded pm]] obtain lo hi p m
    where w: "first_window h used vdd vss = Inr (lo, hi)"
      and t: "hop_tracks h (used + 1) lo hi = Inr (p, m)"
      and pp: "pp = hd (connect_wires h (map (\<lambda>bbox. connect_bbox_to_tracks h LOWER lp bbox p MIDDLE) vdd))"
      and mp: "mp = hd (connect_wires h (map (\<lambda>bbox. connect_bbox_to_tracks h LOWER lp bbox m MIDDLE) vss))"
    by blast
  have w': "pin_window h used vdd vss = (lo, hi)" using first_window_written_out [OF w] by simp
  have t': "tracks_of_window h (used + 1) lo hi = (p, m)" using hop_tracks_written_out [OF t] by simp
  show "pm = wires_after h used lp vdd vss 0"
    by (simp add: pm pp mp w' t')
  show "routed_tracks (emitted (snd (first_hop h used lp vdd vss st)))
           = routed_tracks (emitted st)
             @ replicate (length vdd) (fst (tracks_at h used lp vdd vss 0))
             @ replicate (length vss) (snd (tracks_at h used lp vdd vss 0))"
    by (simp add: first_hop_tracks w t tracks_at_def w' t')
qed

lemma route_layer_tracks_exact:
  assumes "fst (route_layer h layer (pp, mp) st) = Inr pm'"
  shows "\<exists>p m. hop_tracks h layer (min (warr_lower pp) (warr_lower mp)) (max (warr_upper pp) (warr_upper mp)) = Inr (p, m)
           \<and> pm' = (connect_to_tracks h pp p MIDDLE, connect_to_tracks h mp m MIDDLE)
           \<and> routed_tracks (emitted (snd (route_layer h layer (pp, mp) st))) = routed_tracks (emitted st) @ [p, m]"
  using assms
  by (auto simp: route_layer_def Let_def routed_tracks_append split: sum.splits prod.splits)

lemma route_layer_written_out:
  assumes "fst (route_layer h (used + 2 + int k) (wires_after h used lp vdd vss k) st) = Inr pm'"
  shows "pm' = wires_after h used lp vdd vss (Suc k)"
    and "routed_tracks (emitted (snd (route_layer h (used + 2 + int k) (wires_after h used lp vdd vss k) st)))
           = routed_tracks (emitted st)
             @ [fst (tracks_at h used lp vdd vss (Suc k)), snd (tracks_at h used lp vdd vss (Suc k))]"
proof -
  obtain pp mp where w: "wires_after h used lp vdd vss k = (pp, mp)"
    by (cases "wires_after h used lp vdd vss k")
  from route_layer_tracks_exact [OF assms [unfolded w]] obtain p m
    where t: "hop_tracks h (used + 2 + int k) (min (warr_lower pp) (warr_lower mp))
                (max (warr_upper pp) (warr_upper mp)) = Inr (p, m)"
      and pm': "pm' = (connect_to_tracks h pp p MIDDLE, connect_to_tracks h mp m MIDDLE)"
      and r: "routed_tracks (emitted (snd (route_layer h (used + 2 + int k) (pp, mp) st)))
                = routed_tracks (emitted st) @ [p, m]"
    by blast
  have t': "tracks_of_window h (used + 2 + int k) (min (warr_lower pp) (warr_lower mp))
              (max (warr_upper pp) (warr_upper mp)) = (p, m)"
    using hop_tracks_written_out [OF t] by simp
  show "pm' = wires_after h used lp vdd vss (Suc k)"
    by (simp add: pm' w t')
  show "routed_tracks (emitted (snd (route_layer h (used + 2 + int k) (wires_after h used lp vdd vss k) st)))
           = routed_tracks (emitted st)
             @ [fst (tracks_at h used lp vdd vss (Suc k)), snd (tracks_at h used lp vdd vss (Suc k))]"
    unfolding w using r by (simp add: tracks_at_def w t')
qed

lemma route_pins_written_out:
  assumes "fst (route_pins h used (used + 1 + int k) lp vdd vss st) = Inr pm"
  shows "pm = wires_after h used lp vdd vss k
         \<and> routed_tracks (emitted (snd (route_pins h used (used + 1 + int k) lp vdd vss st)))
             = routed_tracks (emitted st)
               @ replicate (length vdd) (fst (tracks_at h used lp vdd vss 0))
               @ replicate (length vss) (snd (tracks_at h used lp vdd vss 0))
               @ concat (map (\<lambda>j. [fst (tracks_at h used lp vdd vss j), snd (tracks_at h used lp vdd vss j)])
                          [1..<Suc k])"
  using assms
proof (induction k arbitrary: pm)
  case 0
  then have "fst (first_hop h used lp vdd vss st) = Inr pm" by (simp add: route_pins_base)
  from first_hop_written_out [OF this] show ?case by (simp add: route_pins_base)
next
  case (Suc k)
  let ?T = "used + 1 + int k"
  have le: "used + 1 \<le> ?T" by simp
  have T1: "used + 1 + int (Suc k) = ?T + 1" by simp
  show ?case
  proof (cases "fst (route_pins h used ?T lp vdd vss st)")
    case (Inl e)
    have "route_pins h used (?T + 1) lp vdd vss st = route_pins h used ?T lp vdd vss st"
      using le Inl by (rule route_pins_step_Inl)
    with Suc.prems [unfolded T1] Inl have False by (simp only: sum.distinct)
    then show ?thesis ..
  next
    case (Inr pm0)
    from Suc.IH [OF Inr] have pm0: "pm0 = wires_after h used lp vdd vss k"
      and r0: "routed_tracks (emitted (snd (route_pins h used ?T lp vdd vss st)))
             = routed_tracks (emitted st)
               @ replicate (length vdd) (fst (tracks_at h used lp vdd vss 0))
               @ replicate (length vss) (snd (tracks_at h used lp vdd vss 0))
               @ concat (map (\<lambda>j. [fst (tracks_at h used lp vdd vss j), snd (tracks_at h used lp vdd vss j)])
                          [1..<Suc k])"
      by simp_all
    have L: "?T + 1 = used + 2 + int k" by simp
    have T2: "used + 1 + int (Suc k) = used + 2 + int k" by simp
    have step: "route_pins h used (used + 2 + int k) lp vdd vss st
                  = route_layer h (used + 2 + int k) (wires_after h used lp vdd vss k)
                      (snd (route_pins h used ?T lp vdd vss st))"
      using route_pins_step_Inr [OF le Inr] unfolding L pm0 .
    have f: "fst (route_layer h (used + 2 + int k) (wires_after h used lp vdd vss k)
                (snd (route_pins h used ?T lp vdd vss st))) = Inr pm"
      using Suc.prems unfolding T2 step .
    from route_layer_written_out [OF f] r0
    show ?thesis unfolding T2 step by simp
  qed
qed

lemma draw_layout_after_routing:
  assumes pl: "placement h prm ci st = (Inr (port_layer, master), st1)"
    and lp: "get_lay_purp_list h (used_port_layer ci) = hm_lp # lps"
  shows "fst (draw_layout h prm ci st) = Some e \<longleftrightarrow>
           fst (route_pins h (used_port_layer ci) port_layer hm_lp
                  (get_all_port_pins h master ''VDD'' (used_port_layer ci))
                  (get_all_port_pins h master ''VSS'' (used_port_layer ci)) st1) = Inl e"
    and "routed_tracks (emitted (snd (draw_layout h prm ci st)))
           = routed_tracks (emitted (snd (route_pins h (used_port_layer ci) port_layer hm_lp
                  (get_all_port_pins h master ''VDD'' (used_port_layer ci))
                  (get_all_port_pins h master ''VSS'' (used_port_layer ci)) st1)))"
    and "fst (route_pins h (used_port_layer ci) port_layer hm_lp
                  (get_all_port_pins h master ''VDD'' (used_port_layer ci))
                  (get_all_port_pins h master ''VSS'' (used_port_layer ci)) st1) = Inr (p, m) \<Longrightarrow>
         fst (draw_layout h prm ci st) = None
         \<and> pins (emitted (snd (draw_layout h prm ci st)))
             = pins (emitted st) @ [(''VDD'', p, True), (''VSS'', m, True)]"
    and "fst (route_pins h (used_port_layer ci) port_layer hm_lp
                  (get_all_port_pins h master ''VDD'' (used_port_layer ci))
                  (get_all_port_pins h master ''VSS'' (used_port_layer ci)) st1) = Inl e \<Longrightarrow>
         pins (emitted (snd (draw_layout h prm ci st))) = pins (emitted st)"
proof -
  let ?used = "used_port_layer ci"
  let ?r = "route_pins h ?used port_layer hm_lp (get_all_port_pins h master ''VDD'' ?used)
              (get_all_port_pins h master ''VSS'' ?used) st1"
  have le: "?used + 1 \<le> port_layer" using placement_ok(2) [OF pl] by simp
  obtain r st2 where r: "?r = (r, st2)" by (cases ?r)
  have p2: "pins (emitted st2) = pins (emitted st)"
    using route_pins_pins [OF le, of h hm_lp "get_all_port_pins h master ''VDD'' ?used"
        "get_all_port_pins h master ''VSS'' ?used" st1] r placement_ok(3) [OF pl] by simp
  show "fst (draw_layout h prm ci st) = Some e \<longleftrightarrow> fst ?r = Inl e"
  proof (cases r)
    case (Inl e')
    then show ?thesis using draw_layout_unrouted [OF pl lp, of e' st2] r by simp
  next
    case (Inr pm)
    obtain p' m' where "pm = (p', m')" by (cases pm)
    then show ?thesis using draw_layout_routed [OF pl lp, of p' m' st2] r Inr by simp
  qed
  show "routed_tracks (emitted (snd (draw_layout h prm ci st))) = routed_tracks (emitted (snd ?r))"
  proof (cases r)
    case (Inl e')
    then show ?thesis using draw_layout_unrouted [OF pl lp, of e' st2] r by simp
  next
    case (Inr pm)
    obtain p' m' where "pm = (p', m')" by (cases pm)
    then show ?thesis using draw_layout_routed [OF pl lp, of p' m' st2] r Inr
      by (simp add: routed_tracks_append nc_events)
  qed
  show "fst (draw_layout h prm ci st) = None
         \<and> pins (emitted (snd (draw_layout h prm ci st)))
             = pins (emitted st) @ [(''VDD'', p, True), (''VSS'', m, True)]"
    if "fst ?r = Inr (p, m)"
  proof -
    have "?r = (Inr (p, m), st2)" using that r by simp
    from draw_layout_routed [OF pl lp this] p2 show ?thesis
      by (simp add: pins_append nc_events)
  qed
  show "pins (emitted (snd (draw_layout h prm ci st))) = pins (emitted st)" if "fst ?r = Inl e"
  proof -
    have "?r = (Inl e, st2)" using that r by simp
    from draw_layout_unrouted [OF pl lp this] p2 show ?thesis by simp
  qed
qed

lemma route_layer_extends:
  "\<exists>es. routed_tracks (emitted (snd (route_layer h layer pm st))) = routed_tracks (emitted st) @ es"
  by (auto simp: route_layer_def Let_def routed_tracks_append split: sum.splits prod.splits)

lemma route_pins_extends:
  assumes "used + 1 \<le> T"
  shows "\<exists>es. routed_tracks (emitted (snd (route_pins h used T lp vdd vss st)))
               = routed_tracks (emitted (snd (first_hop h used lp vdd vss st))) @ es"
  using assms
proof (induction T rule: int_ge_induct)
  case base
  show ?case by (simp add: route_pins_base)
next
  case (step T)
  then obtain es where es: "routed_tracks (emitted (snd (route_pins h used T lp vdd vss st)))
               = routed_tracks (emitted (snd (first_hop h used lp vdd vss st))) @ es" by blast
  show ?case
  proof (cases "fst (route_pins h used T lp vdd vss st)")
    case (Inl e)
    then show ?thesis using es step.hyps by (simp add: route_pins_step_Inl)
  next
    case (Inr pm)
    obtain es' where "routed_tracks (emitted (snd (route_layer h (T + 1) pm (snd (route_pins h used T lp vdd vss st)))))
        = routed_tracks (emitted (snd (route_pins h used T lp vdd vss st))) @ es'"
      using route_layer_extends by blast
    then show ?thesis using es step.hyps Inr by (simp add: route_pins_step_Inr)
  qed
qed

lemma tracks_of_window_fields:
  "tid_layer (fst (tracks_of_window h layer lo hi)) = layer"
  "tid_layer (snd (tracks_of_window h layer lo hi)) = layer"
  "tid_num (fst (tracks_of_window h layer lo hi))
     = (get_num_wires_between h layer ''sup'' (coord_to_track h layer lo GREATER_EQ) ''sup''
          (coord_to_track h layer hi LESS_EQ) ''sup'' + 2) div 2"
  "tid_num (snd (tracks_of_window h layer lo hi)) = tid_num (fst (tracks_of_window h layer lo hi))"
  "tid_base (fst (tracks_of_window h layer lo hi))
     = spread_wires h layer (replicate (nat (2 * tid_num (fst (tracks_of_window h layer lo hi)))) ''sup'')
         (coord_to_track h layer lo GREATER_EQ) (coord_to_track h layer hi LESS_EQ) (''sup'', ''sup'') ! 0"
  "tid_base (snd (tracks_of_window h layer lo hi))
     = spread_wires h layer (replicate (nat (2 * tid_num (fst (tracks_of_window h layer lo hi)))) ''sup'')
         (coord_to_track h layer lo GREATER_EQ) (coord_to_track h layer hi LESS_EQ) (''sup'', ''sup'') ! 1"
  by (simp_all add: tracks_of_window_def Let_def)

lemma hop_num_written_out:
  "hop_num h layer lo hi
     = get_num_wires_between h layer ''sup'' (coord_to_track h layer lo GREATER_EQ) ''sup''
          (coord_to_track h layer hi LESS_EQ) ''sup'' + 2"
  by (simp add: hop_num_def snap_def)

section \<open>The two pins of the cell\<close>

text \<open>
  C5. Take a configuration for which placement succeeds (so \<^verbatim>\<open>used_port_layer\<close> is below
  the top layer), whose core has VDD and VSS pin rectangles on \<^verbatim>\<open>used_port_layer\<close>, on
  a host that draws wires as asked, and let the count be at least 2 at every layer the
  planner gets to route. Then the run completes and publishes exactly two pins, both
  connectable: under the name VDD the wire that comes from the VDD pin rectangles, taken
  up on the VDD track of every layer to the top layer, and under the name VSS the wire
  that comes from the VSS pin rectangles on the VSS tracks. Both wires lie on the top
  layer.
\<close>

theorem final_pins:
  assumes pl: "placement h prm ci st = (Inr (port_layer, master), st1)"
    and lp: "get_lay_purp_list h (used_port_layer ci) = hm_lp # lps"
    and host: "wires_as_asked h"
    and vdd: "get_all_port_pins h master ''VDD'' (used_port_layer ci) \<noteq> []"
    and vss: "get_all_port_pins h master ''VSS'' (used_port_layer ci) \<noteq> []"
    and feasible: "\<forall>l n. l \<le> port_layer \<longrightarrow>
        slots_at h (used_port_layer ci) hm_lp (get_all_port_pins h master ''VDD'' (used_port_layer ci))
          (get_all_port_pins h master ''VSS'' (used_port_layer ci)) st1 l = Some n \<longrightarrow> 2 \<le> n"
  shows "fst (draw_layout h prm ci st) = None
         \<and> pins (emitted (snd (draw_layout h prm ci st)))
             = pins (emitted st)
               @ [(''VDD'', fst (wires_after h (used_port_layer ci) hm_lp
                                  (get_all_port_pins h master ''VDD'' (used_port_layer ci))
                                  (get_all_port_pins h master ''VSS'' (used_port_layer ci))
                                  (nat (port_layer - used_port_layer ci - 1))), True),
                  (''VSS'', snd (wires_after h (used_port_layer ci) hm_lp
                                  (get_all_port_pins h master ''VDD'' (used_port_layer ci))
                                  (get_all_port_pins h master ''VSS'' (used_port_layer ci))
                                  (nat (port_layer - used_port_layer ci - 1))), True)]
         \<and> tid_layer (warr_tid (fst (wires_after h (used_port_layer ci) hm_lp
                                  (get_all_port_pins h master ''VDD'' (used_port_layer ci))
                                  (get_all_port_pins h master ''VSS'' (used_port_layer ci))
                                  (nat (port_layer - used_port_layer ci - 1))))) = port_layer
         \<and> tid_layer (warr_tid (snd (wires_after h (used_port_layer ci) hm_lp
                                  (get_all_port_pins h master ''VDD'' (used_port_layer ci))
                                  (get_all_port_pins h master ''VSS'' (used_port_layer ci))
                                  (nat (port_layer - used_port_layer ci - 1))))) = port_layer"
proof -
  let ?used = "used_port_layer ci"
  let ?vdd = "get_all_port_pins h master ''VDD'' ?used"
  let ?vss = "get_all_port_pins h master ''VSS'' ?used"
  let ?k = "nat (port_layer - ?used - 1)"
  have le: "?used + 1 \<le> port_layer" using placement_ok(2) [OF pl] by simp
  then have T: "?used + 1 + int ?k = port_layer" by simp
  obtain p m where pm: "fst (route_pins h ?used port_layer hm_lp ?vdd ?vss st1) = Inr (p, m)"
    and l: "tid_layer (warr_tid p) = port_layer" "tid_layer (warr_tid m) = port_layer"
    using route_pins_succeeds [OF le host vdd vss feasible] by blast
  have "fst (route_pins h ?used (?used + 1 + int ?k) hm_lp ?vdd ?vss st1) = Inr (p, m)"
    using pm unfolding T .
  from route_pins_written_out [OF this] have w: "wires_after h ?used hm_lp ?vdd ?vss ?k = (p, m)"
    by simp
  show ?thesis
    using draw_layout_after_routing(3) [OF pl lp pm] l unfolding w by simp
qed

lemma demo_wires_after:
  "wires_after demo_host 2 (''metal'', ''drawing'') (demo_pins demo_master ''VDD'' 2) (demo_pins demo_master ''VSS'' 2) 0
     = (\<lparr>warr_tid = \<lparr>tid_layer = 3, tid_base = 1, tid_width = 2, tid_num = 4, tid_pitch = 2\<rparr>,
              warr_lower = 10, warr_upper = 70\<rparr>,
        \<lparr>warr_tid = \<lparr>tid_layer = 3, tid_base = 2, tid_width = 2, tid_num = 4, tid_pitch = 2\<rparr>,
              warr_lower = 40, warr_upper = 50\<rparr>)"
  "wires_after demo_host 2 (''metal'', ''drawing'') (demo_pins demo_master ''VDD'' 2) (demo_pins demo_master ''VSS'' 2) 1
     = (\<lparr>warr_tid = \<lparr>tid_layer = 4, tid_base = 1, tid_width = 2, tid_num = 3, tid_pitch = 2\<rparr>,
              warr_lower = 10, warr_upper = 70\<rparr>,
        \<lparr>warr_tid = \<lparr>tid_layer = 4, tid_base = 2, tid_width = 2, tid_num = 3, tid_pitch = 2\<rparr>,
              warr_lower = 20, warr_upper = 80\<rparr>)"
proof -
  show "wires_after demo_host 2 (''metal'', ''drawing'') (demo_pins demo_master ''VDD'' 2) (demo_pins demo_master ''VSS'' 2) 0
     = (\<lparr>warr_tid = \<lparr>tid_layer = 3, tid_base = 1, tid_width = 2, tid_num = 4, tid_pitch = 2\<rparr>,
              warr_lower = 10, warr_upper = 70\<rparr>,
        \<lparr>warr_tid = \<lparr>tid_layer = 3, tid_base = 2, tid_width = 2, tid_num = 4, tid_pitch = 2\<rparr>,
              warr_lower = 40, warr_upper = 50\<rparr>)"
    using first_hop_written_out(1) [OF demo_first_hop] by simp
  have "fst (route_pins demo_host 2 (2 + 1 + int 1) (''metal'', ''drawing'') (demo_pins demo_master ''VDD'' 2)
               (demo_pins demo_master ''VSS'' 2) ClampStatic_init)
     = Inr (\<lparr>warr_tid = \<lparr>tid_layer = 4, tid_base = 1, tid_width = 2, tid_num = 3, tid_pitch = 2\<rparr>,
              warr_lower = 10, warr_upper = 70\<rparr>,
            \<lparr>warr_tid = \<lparr>tid_layer = 4, tid_base = 2, tid_width = 2, tid_num = 3, tid_pitch = 2\<rparr>,
              warr_lower = 20, warr_upper = 80\<rparr>)"
    using demo_route [of ClampStatic_init] by simp
  from route_pins_written_out [OF this]
  show "wires_after demo_host 2 (''metal'', ''drawing'') (demo_pins demo_master ''VDD'' 2) (demo_pins demo_master ''VSS'' 2) 1
     = (\<lparr>warr_tid = \<lparr>tid_layer = 4, tid_base = 1, tid_width = 2, tid_num = 3, tid_pitch = 2\<rparr>,
              warr_lower = 10, warr_upper = 70\<rparr>,
        \<lparr>warr_tid = \<lparr>tid_layer = 4, tid_base = 2, tid_width = 2, tid_num = 3, tid_pitch = 2\<rparr>,
              warr_lower = 20, warr_upper = 80\<rparr>)"
    by simp
qed

lemma demo_feasible:
  "\<forall>l n. l \<le> 4 \<longrightarrow>
        slots_at demo_host 2 (''metal'', ''drawing'') (demo_pins demo_master ''VDD'' 2)
          (demo_pins demo_master ''VSS'' 2) st1 l = Some n \<longrightarrow> 2 \<le> n"
proof (intro allI impI)
  fix l n :: int
  assume l: "l \<le> 4"
    and s: "slots_at demo_host 2 (''metal'', ''drawing'') (demo_pins demo_master ''VDD'' 2)
          (demo_pins demo_master ''VSS'' 2) st1 l = Some n"
  consider "l \<le> 2" | "l = 3" | "l = 4" using l by linarith
  then show "2 \<le> n"
  proof cases
    case 1
    then show ?thesis using s by (simp add: slots_at_below)
  next
    case 2
    then show ?thesis using s demo_slots(1) [of st1] by simp
  next
    case 3
    then show ?thesis using s demo_slots(2) [of st1] by simp
  qed
qed

theorem final_pins_witness:
  "fst (draw_layout demo_host demo_params demo_info ClampStatic_init) = None
   \<and> pins (emitted (snd (draw_layout demo_host demo_params demo_info ClampStatic_init)))
       = [(''VDD'', \<lparr>warr_tid = \<lparr>tid_layer = 4, tid_base = 1, tid_width = 2, tid_num = 3, tid_pitch = 2\<rparr>,
                      warr_lower = 10, warr_upper = 70\<rparr>, True),
          (''VSS'', \<lparr>warr_tid = \<lparr>tid_layer = 4, tid_base = 2, tid_width = 2, tid_num = 3, tid_pitch = 2\<rparr>,
                      warr_lower = 20, warr_upper = 80\<rparr>, True)]"
proof -
  obtain st1 where pl: "placement demo_host demo_params demo_info ClampStatic_init = (Inr (4, demo_master), st1)"
    using demo_placement_fst by (cases "placement demo_host demo_params demo_info ClampStatic_init") auto
  have u: "used_port_layer demo_info = 2" by (simp add: demo_info_def)
  have g: "get_all_port_pins demo_host = demo_pins" by (simp add: demo_host_def)
  have lp: "get_lay_purp_list demo_host (used_port_layer demo_info) = (''metal'', ''drawing'') # []"
    by (simp add: demo_host_def)
  have vdd: "get_all_port_pins demo_host demo_master ''VDD'' (used_port_layer demo_info) \<noteq> []"
    and vss: "get_all_port_pins demo_host demo_master ''VSS'' (used_port_layer demo_info) \<noteq> []"
    unfolding u g by (simp_all add: demo_pins_def)
  have feasible: "\<forall>l n. l \<le> 4 \<longrightarrow>
        slots_at demo_host (used_port_layer demo_info) (''metal'', ''drawing'')
          (get_all_port_pins demo_host demo_master ''VDD'' (used_port_layer demo_info))
          (get_all_port_pins demo_host demo_master ''VSS'' (used_port_layer demo_info)) st1 l = Some n \<longrightarrow> 2 \<le> n"
    unfolding u g by (rule demo_feasible)
  have k: "nat (4 - 2 - 1) = (1 :: nat)" by simp
  have i: "pins (emitted ClampStatic_init) = []" by (simp add: ClampStatic_init_def)
  show ?thesis
    using final_pins [OF pl lp demo_wires vdd vss feasible]
    unfolding u g k demo_wires_after i by simp
qed

section \<open>Snapping the first window inward\<close>

text \<open>
  C3, as amended. In the first hop the window runs from the highest low edge to the
  lowest high edge of all VSS and VDD pin rectangles, moved inward by \<^verbatim>\<open>ext\<close> at each
  end. Its low end is snapped with \<^verbatim>\<open>GREATER_EQ\<close> and its high end with \<^verbatim>\<open>LESS_EQ\<close>:
  on a grid whose rounding modes do what their names say, the low track lies at or above
  the low end and the high track at or below the high end, so both ends are rounded
  inward. These two tracks are the ones the planner works with: the run ends in "Redo
  routing" on the first-hop layer exactly when the count between them, plus 2, is below
  2, and otherwise the wires of the first hop are drawn on tracks taken from the list
  spread between them, half of that count per net.
\<close>

theorem first_hop_snap_inward:
  assumes r: "rounds_as_named h t2c"
    and pl: "placement h prm ci st = (Inr (port_layer, master), st1)"
    and lp: "get_lay_purp_list h (used_port_layer ci) = hm_lp # lps"
    and ne: "get_all_port_pins h master ''VSS'' (used_port_layer ci)
             @ get_all_port_pins h master ''VDD'' (used_port_layer ci) \<noteq> []"
  defines "used \<equiv> used_port_layer ci"
    and "vdd \<equiv> get_all_port_pins h master ''VDD'' (used_port_layer ci)"
    and "vss \<equiv> get_all_port_pins h master ''VSS'' (used_port_layer ci)"
  defines "lo \<equiv> fst (pin_window h used vdd vss)"
    and "hi \<equiv> snd (pin_window h used vdd vss)"
  defines "l_idx \<equiv> coord_to_track h (used + 1) lo GREATER_EQ"
    and "r_idx \<equiv> coord_to_track h (used + 1) hi LESS_EQ"
  shows "lo \<le> t2c (used + 1) l_idx \<and> t2c (used + 1) r_idx \<le> hi
         \<and> (fst (draw_layout h prm ci st) = Some (ValueError (Redo_routing (used + 1)))
              \<longleftrightarrow> get_num_wires_between h (used + 1) ''sup'' l_idx ''sup'' r_idx ''sup'' + 2 < 2)
         \<and> (fst (first_hop h used hm_lp vdd vss st1) \<noteq> Inl (ValueError (Redo_routing (used + 1)))
              \<and> fst (first_hop h used hm_lp vdd vss st1) \<noteq> Inl IndexError
              \<longrightarrow> (\<exists>tp tm rest.
                     routed_tracks (emitted (snd (draw_layout h prm ci st)))
                       = routed_tracks (emitted st) @ replicate (length vdd) tp @ replicate (length vss) tm @ rest
                     \<and> tid_layer tp = used + 1 \<and> tid_layer tm = used + 1
                     \<and> tid_num tp = (get_num_wires_between h (used + 1) ''sup'' l_idx ''sup'' r_idx ''sup'' + 2) div 2
                     \<and> tid_num tm = tid_num tp
                     \<and> tid_base tp = spread_wires h (used + 1) (replicate (nat (2 * tid_num tp)) ''sup'')
                                        l_idx r_idx (''sup'', ''sup'') ! 0
                     \<and> tid_base tm = spread_wires h (used + 1) (replicate (nat (2 * tid_num tp)) ''sup'')
                                        l_idx r_idx (''sup'', ''sup'') ! 1))"
proof -
  have le: "used + 1 \<le> port_layer" using placement_ok(2) [OF pl] by (simp add: used_def)
  obtain lo' hi' where w: "first_window h used vdd vss = Inr (lo', hi')"
    using first_window_ok [of vss vdd h used] ne by (auto simp: vdd_def vss_def)
  have pw: "pin_window h used vdd vss = (lo, hi)" by (simp add: lo_def hi_def)
  have w': "first_window h used vdd vss = Inr (lo, hi)"
    using w first_window_written_out [OF w] pw by simp
  have a: "lo \<le> t2c (used + 1) l_idx \<and> t2c (used + 1) r_idx \<le> hi"
    using r by (simp add: rounds_as_named_def l_idx_def r_idx_def)
  have n: "hop_num h (used + 1) lo hi
             = get_num_wires_between h (used + 1) ''sup'' l_idx ''sup'' r_idx ''sup'' + 2"
    by (simp add: hop_num_written_out l_idx_def r_idx_def)
  have s: "\<And>k. slots_at h used hm_lp vdd vss st1 (used + 1) = Some k \<longleftrightarrow> k = hop_num h (used + 1) lo hi"
    using w' by (simp add: slots_at_first)
  have b: "fst (draw_layout h prm ci st) = Some (ValueError (Redo_routing (used + 1)))
              \<longleftrightarrow> get_num_wires_between h (used + 1) ''sup'' l_idx ''sup'' r_idx ''sup'' + 2 < 2"
    using draw_layout_after_routing(1) [OF pl lp, of "ValueError (Redo_routing (used + 1))"]
      route_pins_redo_iff [OF le, of h hm_lp vdd vss st1 "used + 1"] le s n
    by (simp add: used_def vdd_def vss_def)
  have c: "\<exists>tp tm rest.
             routed_tracks (emitted (snd (draw_layout h prm ci st)))
               = routed_tracks (emitted st) @ replicate (length vdd) tp @ replicate (length vss) tm @ rest
             \<and> tid_layer tp = used + 1 \<and> tid_layer tm = used + 1
             \<and> tid_num tp = (get_num_wires_between h (used + 1) ''sup'' l_idx ''sup'' r_idx ''sup'' + 2) div 2
             \<and> tid_num tm = tid_num tp
             \<and> tid_base tp = spread_wires h (used + 1) (replicate (nat (2 * tid_num tp)) ''sup'')
                                l_idx r_idx (''sup'', ''sup'') ! 0
             \<and> tid_base tm = spread_wires h (used + 1) (replicate (nat (2 * tid_num tp)) ''sup'')
                                l_idx r_idx (''sup'', ''sup'') ! 1"
    if nr: "fst (first_hop h used hm_lp vdd vss st1) \<noteq> Inl (ValueError (Redo_routing (used + 1)))"
      and ni: "fst (first_hop h used hm_lp vdd vss st1) \<noteq> Inl IndexError"
  proof -
    obtain tp tm where t: "hop_tracks h (used + 1) lo hi = Inr (tp, tm)"
    proof (cases "hop_tracks h (used + 1) lo hi")
      case (Inl e)
      then have "fst (first_hop h used hm_lp vdd vss st1) = Inl e"
        using w' by (simp add: first_hop_def Let_def)
      moreover have "e = ValueError (Redo_routing (used + 1)) \<or> e = IndexError"
        using hop_tracks_error [OF Inl] by blast
      ultimately show ?thesis using nr ni by auto
    next
      case (Inr tt)
      then show ?thesis using that by (cases tt) auto
    qed
    have tw: "tracks_of_window h (used + 1) lo hi = (tp, tm)"
      using hop_tracks_written_out [OF t] by simp
    have f: "routed_tracks (emitted (snd (first_hop h used hm_lp vdd vss st1)))
               = routed_tracks (emitted st1) @ replicate (length vdd) tp @ replicate (length vss) tm"
      by (simp add: first_hop_tracks w' t)
    obtain es where es: "routed_tracks (emitted (snd (route_pins h used port_layer hm_lp vdd vss st1)))
               = routed_tracks (emitted (snd (first_hop h used hm_lp vdd vss st1))) @ es"
      using route_pins_extends [OF le] by blast
    have d: "routed_tracks (emitted (snd (draw_layout h prm ci st)))
               = routed_tracks (emitted st) @ replicate (length vdd) tp @ replicate (length vss) tm @ es"
      using draw_layout_after_routing(2) [OF pl lp] es f placement_ok(4) [OF pl]
      by (simp add: used_def vdd_def vss_def)
    have fields: "tid_layer tp = used + 1" "tid_layer tm = used + 1"
      "tid_num tp = (get_num_wires_between h (used + 1) ''sup'' l_idx ''sup'' r_idx ''sup'' + 2) div 2"
      "tid_num tm = tid_num tp"
      "tid_base tp = spread_wires h (used + 1) (replicate (nat (2 * tid_num tp)) ''sup'')
                                l_idx r_idx (''sup'', ''sup'') ! 0"
      "tid_base tm = spread_wires h (used + 1) (replicate (nat (2 * tid_num tp)) ''sup'')
                                l_idx r_idx (''sup'', ''sup'') ! 1"
      using tracks_of_window_fields [of h "used + 1" lo hi] unfolding tw l_idx_def r_idx_def
      by simp_all
    show ?thesis using d fields by blast
  qed
  show ?thesis using a b c by blast
qed

lemma demo_pin_window:
  "pin_window demo_host 2 (demo_pins demo_master ''VDD'' 2) (demo_pins demo_master ''VSS'' 2) = (2, 98)"
  using first_window_written_out [OF demo_first_window] by simp

lemma demo_tracks_at:
  "tracks_at demo_host 2 (''metal'', ''drawing'') (demo_pins demo_master ''VDD'' 2) (demo_pins demo_master ''VSS'' 2) 0
     = (\<lparr>tid_layer = 3, tid_base = 1, tid_width = 2, tid_num = 4, tid_pitch = 2\<rparr>,
        \<lparr>tid_layer = 3, tid_base = 2, tid_width = 2, tid_num = 4, tid_pitch = 2\<rparr>)"
  "tracks_at demo_host 2 (''metal'', ''drawing'') (demo_pins demo_master ''VDD'' 2) (demo_pins demo_master ''VSS'' 2) (Suc 0)
     = (\<lparr>tid_layer = 4, tid_base = 1, tid_width = 2, tid_num = 3, tid_pitch = 2\<rparr>,
        \<lparr>tid_layer = 4, tid_base = 2, tid_width = 2, tid_num = 3, tid_pitch = 2\<rparr>)"
proof -
  have a: "tracks_of_window demo_host (2 + 1) 2 98
     = (\<lparr>tid_layer = 3, tid_base = 1, tid_width = 2, tid_num = 4, tid_pitch = 2\<rparr>,
        \<lparr>tid_layer = 3, tid_base = 2, tid_width = 2, tid_num = 4, tid_pitch = 2\<rparr>)"
    using hop_tracks_written_out [OF demo_hop3] by simp
  have b: "tracks_of_window demo_host (2 + 2 + int 0) 10 70
     = (\<lparr>tid_layer = 4, tid_base = 1, tid_width = 2, tid_num = 3, tid_pitch = 2\<rparr>,
        \<lparr>tid_layer = 4, tid_base = 2, tid_width = 2, tid_num = 3, tid_pitch = 2\<rparr>)"
    using hop_tracks_written_out [OF demo_hop4] by simp
  show "tracks_at demo_host 2 (''metal'', ''drawing'') (demo_pins demo_master ''VDD'' 2) (demo_pins demo_master ''VSS'' 2) 0
     = (\<lparr>tid_layer = 3, tid_base = 1, tid_width = 2, tid_num = 4, tid_pitch = 2\<rparr>,
        \<lparr>tid_layer = 3, tid_base = 2, tid_width = 2, tid_num = 4, tid_pitch = 2\<rparr>)"
    unfolding tracks_at_def demo_pin_window using a by simp
  show "tracks_at demo_host 2 (''metal'', ''drawing'') (demo_pins demo_master ''VDD'' 2) (demo_pins demo_master ''VSS'' 2) (Suc 0)
     = (\<lparr>tid_layer = 4, tid_base = 1, tid_width = 2, tid_num = 3, tid_pitch = 2\<rparr>,
        \<lparr>tid_layer = 4, tid_base = 2, tid_width = 2, tid_num = 3, tid_pitch = 2\<rparr>)"
    using b by (simp add: tracks_at_def demo_wires_after(1) del: wires_after.simps)
qed

lemma demo_routed_tracks:
  "routed_tracks (emitted (snd (draw_layout demo_host demo_params demo_info ClampStatic_init)))
     = [\<lparr>tid_layer = 3, tid_base = 1, tid_width = 2, tid_num = 4, tid_pitch = 2\<rparr>,
        \<lparr>tid_layer = 3, tid_base = 1, tid_width = 2, tid_num = 4, tid_pitch = 2\<rparr>,
        \<lparr>tid_layer = 3, tid_base = 2, tid_width = 2, tid_num = 4, tid_pitch = 2\<rparr>,
        \<lparr>tid_layer = 4, tid_base = 1, tid_width = 2, tid_num = 3, tid_pitch = 2\<rparr>,
        \<lparr>tid_layer = 4, tid_base = 2, tid_width = 2, tid_num = 3, tid_pitch = 2\<rparr>]"
proof -
  obtain st1 where pl: "placement demo_host demo_params demo_info ClampStatic_init = (Inr (4, demo_master), st1)"
    using demo_placement_fst by (cases "placement demo_host demo_params demo_info ClampStatic_init") auto
  have u: "used_port_layer demo_info = 2" by (simp add: demo_info_def)
  have g: "get_all_port_pins demo_host = demo_pins" by (simp add: demo_host_def)
  have lp: "get_lay_purp_list demo_host (used_port_layer demo_info) = (''metal'', ''drawing'') # []"
    by (simp add: demo_host_def)
  have s1: "routed_tracks (emitted st1) = []"
    using placement_ok(4) [OF pl] by (simp add: ClampStatic_init_def)
  have f: "fst (route_pins demo_host 2 (2 + 1 + int 1) (''metal'', ''drawing'') (demo_pins demo_master ''VDD'' 2)
               (demo_pins demo_master ''VSS'' 2) st1)
     = Inr (\<lparr>warr_tid = \<lparr>tid_layer = 4, tid_base = 1, tid_width = 2, tid_num = 3, tid_pitch = 2\<rparr>,
              warr_lower = 10, warr_upper = 70\<rparr>,
            \<lparr>warr_tid = \<lparr>tid_layer = 4, tid_base = 2, tid_width = 2, tid_num = 3, tid_pitch = 2\<rparr>,
              warr_lower = 20, warr_upper = 80\<rparr>)"
    using demo_route [of st1] by simp
  have four: "(2 :: int) + 1 + int 1 = 4" by simp
  have lens: "length (demo_pins demo_master ''VDD'' 2) = 2" "length (demo_pins demo_master ''VSS'' 2) = 1"
    by (simp_all add: demo_pins_def)
  have "routed_tracks (emitted (snd (route_pins demo_host 2 4 (''metal'', ''drawing'') (demo_pins demo_master ''VDD'' 2)
               (demo_pins demo_master ''VSS'' 2) st1)))
     = [\<lparr>tid_layer = 3, tid_base = 1, tid_width = 2, tid_num = 4, tid_pitch = 2\<rparr>,
        \<lparr>tid_layer = 3, tid_base = 1, tid_width = 2, tid_num = 4, tid_pitch = 2\<rparr>,
        \<lparr>tid_layer = 3, tid_base = 2, tid_width = 2, tid_num = 4, tid_pitch = 2\<rparr>,
        \<lparr>tid_layer = 4, tid_base = 1, tid_width = 2, tid_num = 3, tid_pitch = 2\<rparr>,
        \<lparr>tid_layer = 4, tid_base = 2, tid_width = 2, tid_num = 3, tid_pitch = 2\<rparr>]"
    using route_pins_written_out [OF f, THEN conjunct2] unfolding four s1
    by (simp add: demo_tracks_at lens numeral_2_eq_2 del: wires_after.simps)
  then show ?thesis
    using draw_layout_after_routing(2) [OF pl lp] unfolding u g by simp
qed


theorem first_hop_snap_inward_witness:
  "(2 :: int) \<le> demo_t2c 3 1 \<and> demo_t2c 3 9 \<le> (98 :: int)
   \<and> fst (draw_layout demo_host demo_params demo_info ClampStatic_init) \<noteq> Some (ValueError (Redo_routing 3))
   \<and> (\<exists>tp tm rest.
         routed_tracks (emitted (snd (draw_layout demo_host demo_params demo_info ClampStatic_init)))
           = replicate 2 tp @ replicate 1 tm @ rest
         \<and> tid_num tp = 4 \<and> tid_base tp = 1 \<and> tid_base tm = 2)"
proof -
  obtain st1 where pl: "placement demo_host demo_params demo_info ClampStatic_init = (Inr (4, demo_master), st1)"
    using demo_placement_fst by (cases "placement demo_host demo_params demo_info ClampStatic_init") auto
  have u: "used_port_layer demo_info = 2" by (simp add: demo_info_def)
  have g: "get_all_port_pins demo_host = demo_pins" by (simp add: demo_host_def)
  have lp: "get_lay_purp_list demo_host (used_port_layer demo_info) = (''metal'', ''drawing'') # []"
    by (simp add: demo_host_def)
  have ne: "get_all_port_pins demo_host demo_master ''VSS'' (used_port_layer demo_info)
             @ get_all_port_pins demo_host demo_master ''VDD'' (used_port_layer demo_info) \<noteq> []"
    unfolding u g by (simp add: demo_pins_def)
  have lens: "length (demo_pins demo_master ''VDD'' 2) = 2" "length (demo_pins demo_master ''VSS'' 2) = 1"
    by (simp_all add: demo_pins_def)
  have c: "coord_to_track demo_host 3 2 GREATER_EQ = 1" "coord_to_track demo_host 3 98 LESS_EQ = 9"
    "get_num_wires_between demo_host 3 ''sup'' 1 ''sup'' 9 ''sup'' = 7"
    by (simp_all add: demo_host_def)
  have sp: "spread_wires demo_host 3 (replicate 8 ''sup'') 1 9 (''sup'', ''sup'') ! 0 = 1"
    "spread_wires demo_host 3 (replicate 8 ''sup'') 1 9 (''sup'', ''sup'') ! Suc 0 = 2"
    by (simp_all add: demo_host_def)
  have fh: "fst (first_hop demo_host 2 (''metal'', ''drawing'') (demo_pins demo_master ''VDD'' 2)
                  (demo_pins demo_master ''VSS'' 2) st1) \<noteq> Inl (ValueError (Redo_routing (2 + 1)))
            \<and> fst (first_hop demo_host 2 (''metal'', ''drawing'') (demo_pins demo_master ''VDD'' 2)
                  (demo_pins demo_master ''VSS'' 2) st1) \<noteq> Inl IndexError"
    by (simp add: demo_first_hop)
  have three: "(2 :: int) + 1 = 3" by simp
  have i: "routed_tracks (emitted ClampStatic_init) = []" by (simp add: ClampStatic_init_def)
  note t = first_hop_snap_inward [OF demo_rounds pl lp ne, unfolded u g demo_pin_window fst_conv snd_conv three c lens i]
  from t fh show ?thesis unfolding three by (auto simp: sp)
qed

text \<open>
  C3 as stated fails at the low end. On the demo grid the window starts at 2; rounding
  toward lower coordinates would give track 0, but the planner snaps to track 1, at
  coordinate 10, and the first wire of the run is drawn on that track.
\<close>

theorem low_end_outward_counterexample:
  "rounds_as_named demo_host demo_t2c
   \<and> fst (pin_window demo_host 2 (demo_pins demo_master ''VDD'' 2) (demo_pins demo_master ''VSS'' 2)) = 2
   \<and> hd (routed_tracks (emitted (snd (draw_layout demo_host demo_params demo_info ClampStatic_init))))
       = \<lparr>tid_layer = 3, tid_base = 1, tid_width = 2, tid_num = 4, tid_pitch = 2\<rparr>
   \<and> spread_wires demo_host 3 (replicate 8 ''sup'') (coord_to_track demo_host 3 2 GREATER_EQ)
         (coord_to_track demo_host 3 98 LESS_EQ) (''sup'', ''sup'') ! 0 = 1
   \<and> coord_to_track demo_host 3 2 GREATER_EQ = 1
   \<and> coord_to_track demo_host 3 2 LESS_EQ = 0
   \<and> \<not> demo_t2c 3 1 \<le> 2"
proof -
  have a: "fst (pin_window demo_host 2 (demo_pins demo_master ''VDD'' 2) (demo_pins demo_master ''VSS'' 2)) = 2"
    by (simp add: demo_pin_window)
  have b: "hd (routed_tracks (emitted (snd (draw_layout demo_host demo_params demo_info ClampStatic_init))))
       = \<lparr>tid_layer = 3, tid_base = 1, tid_width = 2, tid_num = 4, tid_pitch = 2\<rparr>"
    by (simp add: demo_routed_tracks)
  have c: "spread_wires demo_host 3 (replicate 8 ''sup'') (coord_to_track demo_host 3 2 GREATER_EQ)
         (coord_to_track demo_host 3 98 LESS_EQ) (''sup'', ''sup'') ! 0 = 1"
    "coord_to_track demo_host 3 2 GREATER_EQ = 1" "coord_to_track demo_host 3 2 LESS_EQ = 0"
    by (simp_all add: demo_host_def)
  have d: "\<not> demo_t2c 3 1 \<le> 2" by (simp add: demo_t2c_def)
  from demo_rounds a b c d show ?thesis by (intro conjI)
qed

section \<open>A host that lists the pins in another order\<close>

lemma pins_update_fields [simp]:
  "get_direction (h\<lparr>get_all_port_pins := g\<rparr>) = get_direction h"
  "coord_to_track (h\<lparr>get_all_port_pins := g\<rparr>) = coord_to_track h"
  "get_wire_bounds (h\<lparr>get_all_port_pins := g\<rparr>) = get_wire_bounds h"
  "get_lay_purp_list (h\<lparr>get_all_port_pins := g\<rparr>) = get_lay_purp_list h"
  "get_width (h\<lparr>get_all_port_pins := g\<rparr>) = get_width h"
  "get_num_wires_between (h\<lparr>get_all_port_pins := g\<rparr>) = get_num_wires_between h"
  "spread_wires (h\<lparr>get_all_port_pins := g\<rparr>) = spread_wires h"
  "bound_box (h\<lparr>get_all_port_pins := g\<rparr>) = bound_box h"
  "connect_bbox_to_tracks (h\<lparr>get_all_port_pins := g\<rparr>) = connect_bbox_to_tracks h"
  "connect_wires (h\<lparr>get_all_port_pins := g\<rparr>) = connect_wires h"
  "connect_to_tracks (h\<lparr>get_all_port_pins := g\<rparr>) = connect_to_tracks h"
  "get_all_port_pins (h\<lparr>get_all_port_pins := g\<rparr>) = g"
  by simp_all

lemma pins_update_first_window:
  "first_window (h\<lparr>get_all_port_pins := g\<rparr>) = first_window h"
  by (intro ext) (simp add: first_window_def Let_def cong: sum.case_cong prod.case_cong list.case_cong option.case_cong)

lemma pins_update_hop_num:
  "hop_num (h\<lparr>get_all_port_pins := g\<rparr>) = hop_num h"
  by (intro ext) (simp add: hop_num_def snap_def)

lemma pins_update_hop_idx_list:
  "hop_idx_list (h\<lparr>get_all_port_pins := g\<rparr>) = hop_idx_list h"
  by (intro ext) (simp add: hop_idx_list_def snap_def pins_update_hop_num)

lemma pins_update_hop_tracks:
  "hop_tracks (h\<lparr>get_all_port_pins := g\<rparr>) = hop_tracks h"
  by (intro ext) (simp add: hop_tracks_def pins_update_hop_num pins_update_hop_idx_list Let_def cong: sum.case_cong prod.case_cong list.case_cong option.case_cong)

lemma pins_update_first_hop:
  "first_hop (h\<lparr>get_all_port_pins := g\<rparr>) = first_hop h"
  by (intro ext) (simp add: first_hop_def pins_update_first_window pins_update_hop_tracks Let_def cong: sum.case_cong prod.case_cong list.case_cong option.case_cong)

lemma pins_update_route_layer:
  "route_layer (h\<lparr>get_all_port_pins := g\<rparr>) = route_layer h"
  by (intro ext) (simp add: route_layer_def pins_update_hop_tracks Let_def cong: sum.case_cong prod.case_cong list.case_cong option.case_cong)

lemma pins_update_route_layers:
  "route_layers (h\<lparr>get_all_port_pins := g\<rparr>) ls pm st = route_layers h ls pm st"
  by (induction ls arbitrary: pm st) (simp_all add: pins_update_route_layer split: prod.splits sum.splits)

lemma pins_update_route_pins:
  "route_pins (h\<lparr>get_all_port_pins := g\<rparr>) = route_pins h"
  by (intro ext) (simp add: route_pins_def pins_update_first_hop pins_update_route_layers Let_def split: prod.splits sum.splits)

lemma pins_update_placement:
  "placement (h\<lparr>get_all_port_pins := g\<rparr>) = placement h"
  by (intro ext) (simp add: placement_def Let_def split: sum.splits option.splits prod.splits)

lemma tracks_at_window:
  "\<exists>lo hi. tracks_at h used lp vdd vss k = tracks_of_window h (used + 1 + int k) lo hi"
proof (cases k)
  case 0
  then show ?thesis by (auto simp: tracks_at_def split: prod.splits)
next
  case (Suc j)
  have e: "used + 1 + int (Suc j) = used + 2 + int j" by simp
  obtain x1 x2 where w: "wires_after h used lp vdd vss j = (x1, x2)"
    by (cases "wires_after h used lp vdd vss j")
  have "tracks_at h used lp vdd vss (Suc j)
          = tracks_of_window h (used + 2 + int j) (min (warr_lower x1) (warr_lower x2))
              (max (warr_upper x1) (warr_upper x2))"
    by (simp add: tracks_at_def w del: wires_after.simps)
  then show ?thesis unfolding Suc e by blast
qed

lemma option_eqI: "(\<And>e. x = Some e \<longleftrightarrow> y = Some e) \<Longrightarrow> x = y" for x y :: "'a option"
  by (cases x; cases y) auto

text \<open>
  C4. After a successful placement, a host that hands over the pin rectangles of the
  instance in any other order gives the same run, provided that merging wires does not
  depend on the order of the wires: the same exception or none, the same tracks for the
  wires in the same order, the same pins. In a run that completes, the wires are drawn, in
  order, on the VDD track and then the VSS track of each layer from the first hop to the
  top layer, and the pin VDD is the wire on the VDD tracks, the pin VSS the wire on the
  VSS tracks. At the layer \<open>k\<close> above the first hop, the VDD track is the one at position
  0 of the list spread between the two snapped ends of that layer's window, and the VSS
  track the one at position 1.
\<close>

theorem vdd_then_vss:
  assumes pl: "placement h prm ci st = (Inr (port_layer, master), st1)"
    and lp: "get_lay_purp_list h (used_port_layer ci) = hm_lp # lps"
    and perm: "\<forall>m name layer. mset (g m name layer) = mset (get_all_port_pins h m name layer)"
    and free: "merge_order_free h"
  defines "used \<equiv> used_port_layer ci"
    and "vdd \<equiv> get_all_port_pins h master ''VDD'' (used_port_layer ci)"
    and "vss \<equiv> get_all_port_pins h master ''VSS'' (used_port_layer ci)"
  shows "fst (draw_layout (h\<lparr>get_all_port_pins := g\<rparr>) prm ci st) = fst (draw_layout h prm ci st)
         \<and> routed_tracks (emitted (snd (draw_layout (h\<lparr>get_all_port_pins := g\<rparr>) prm ci st)))
             = routed_tracks (emitted (snd (draw_layout h prm ci st)))
         \<and> pins (emitted (snd (draw_layout (h\<lparr>get_all_port_pins := g\<rparr>) prm ci st)))
             = pins (emitted (snd (draw_layout h prm ci st)))
         \<and> (fst (draw_layout h prm ci st) = None \<longrightarrow>
              routed_tracks (emitted (snd (draw_layout h prm ci st)))
                = routed_tracks (emitted st)
                  @ replicate (length vdd) (fst (tracks_at h used hm_lp vdd vss 0))
                  @ replicate (length vss) (snd (tracks_at h used hm_lp vdd vss 0))
                  @ concat (map (\<lambda>j. [fst (tracks_at h used hm_lp vdd vss j), snd (tracks_at h used hm_lp vdd vss j)])
                             [1..<Suc (nat (port_layer - used - 1))])
              \<and> pins (emitted (snd (draw_layout h prm ci st)))
                  = pins (emitted st)
                    @ [(''VDD'', fst (wires_after h used hm_lp vdd vss (nat (port_layer - used - 1))), True),
                       (''VSS'', snd (wires_after h used hm_lp vdd vss (nat (port_layer - used - 1))), True)])
         \<and> (\<exists>lo hi.
               tracks_at h used hm_lp vdd vss k = tracks_of_window h (used + 1 + int k) lo hi
               \<and> tid_base (fst (tracks_at h used hm_lp vdd vss k))
                   = spread_wires h (used + 1 + int k)
                       (replicate (nat (2 * tid_num (fst (tracks_at h used hm_lp vdd vss k)))) ''sup'')
                       (coord_to_track h (used + 1 + int k) lo GREATER_EQ)
                       (coord_to_track h (used + 1 + int k) hi LESS_EQ) (''sup'', ''sup'') ! 0
               \<and> tid_base (snd (tracks_at h used hm_lp vdd vss k))
                   = spread_wires h (used + 1 + int k)
                       (replicate (nat (2 * tid_num (fst (tracks_at h used hm_lp vdd vss k)))) ''sup'')
                       (coord_to_track h (used + 1 + int k) lo GREATER_EQ)
                       (coord_to_track h (used + 1 + int k) hi LESS_EQ) (''sup'', ''sup'') ! 1)"
proof -
  let ?h' = "h\<lparr>get_all_port_pins := g\<rparr>"
  let ?vdd' = "g master ''VDD'' used"
  let ?vss' = "g master ''VSS'' used"
  let ?r = "route_pins h used port_layer hm_lp vdd vss st1"
  let ?r' = "route_pins h used port_layer hm_lp ?vdd' ?vss' st1"
  have le: "used + 1 \<le> port_layer" using placement_ok(2) [OF pl] by (simp add: used_def)
  have pl': "placement ?h' prm ci st = (Inr (port_layer, master), st1)"
    using pl by (simp add: pins_update_placement)
  have lp': "get_lay_purp_list ?h' (used_port_layer ci) = hm_lp # lps" using lp by simp
  have v: "mset ?vdd' = mset vdd" and s: "mset ?vss' = mset vss"
    using perm by (simp_all add: vdd_def vss_def used_def)
  have eq: "fst ?r' = fst ?r"
    "routed_tracks (emitted (snd ?r')) = routed_tracks (emitted (snd ?r))"
    using route_pins_mset [OF v s free le, of hm_lp st1] by simp_all
  note A = draw_layout_after_routing [OF pl lp, folded used_def vdd_def vss_def]
  note A' = draw_layout_after_routing [OF pl' lp', unfolded pins_update_fields pins_update_route_pins,
      folded used_def]
  have 1: "fst (draw_layout ?h' prm ci st) = fst (draw_layout h prm ci st)"
    by (rule option_eqI) (simp add: A(1) A'(1) eq)
  have 2: "routed_tracks (emitted (snd (draw_layout ?h' prm ci st)))
             = routed_tracks (emitted (snd (draw_layout h prm ci st)))"
    by (simp add: A(2) A'(2) eq)
  have 3: "pins (emitted (snd (draw_layout ?h' prm ci st))) = pins (emitted (snd (draw_layout h prm ci st)))"
  proof (cases "fst ?r")
    case (Inl e)
    then show ?thesis using A(4) [of e] A'(4) [of e] eq(1) by simp
  next
    case (Inr pm)
    obtain p m where "pm = (p, m)" by (cases pm)
    then show ?thesis using Inr A(3) [of p m] A'(3) [of p m] eq(1) by simp
  qed
  have 4: "fst (draw_layout h prm ci st) = None \<longrightarrow>
              routed_tracks (emitted (snd (draw_layout h prm ci st)))
                = routed_tracks (emitted st)
                  @ replicate (length vdd) (fst (tracks_at h used hm_lp vdd vss 0))
                  @ replicate (length vss) (snd (tracks_at h used hm_lp vdd vss 0))
                  @ concat (map (\<lambda>j. [fst (tracks_at h used hm_lp vdd vss j), snd (tracks_at h used hm_lp vdd vss j)])
                             [1..<Suc (nat (port_layer - used - 1))])
              \<and> pins (emitted (snd (draw_layout h prm ci st)))
                  = pins (emitted st)
                    @ [(''VDD'', fst (wires_after h used hm_lp vdd vss (nat (port_layer - used - 1))), True),
                       (''VSS'', snd (wires_after h used hm_lp vdd vss (nat (port_layer - used - 1))), True)]"
  proof (intro impI)
    assume ok: "fst (draw_layout h prm ci st) = None"
    let ?k = "nat (port_layer - used - 1)"
    have T: "used + 1 + int ?k = port_layer" using le by simp
    obtain p m where pm: "fst ?r = Inr (p, m)"
    proof (cases "fst ?r")
      case (Inl e)
      then show ?thesis using A(1) [of e] ok by simp
    next
      case (Inr pm)
      then show ?thesis using that by (cases pm) auto
    qed
    have "fst (route_pins h used (used + 1 + int ?k) hm_lp vdd vss st1) = Inr (p, m)"
      using pm unfolding T .
    from route_pins_written_out [OF this, unfolded T]
    have w: "wires_after h used hm_lp vdd vss ?k = (p, m)"
      and t: "routed_tracks (emitted (snd ?r))
             = routed_tracks (emitted st1)
               @ replicate (length vdd) (fst (tracks_at h used hm_lp vdd vss 0))
               @ replicate (length vss) (snd (tracks_at h used hm_lp vdd vss 0))
               @ concat (map (\<lambda>j. [fst (tracks_at h used hm_lp vdd vss j), snd (tracks_at h used hm_lp vdd vss j)])
                          [1..<Suc ?k])"
      by simp_all
    have r4: "routed_tracks (emitted st1) = routed_tracks (emitted st)" by (rule placement_ok(4) [OF pl])
    show "routed_tracks (emitted (snd (draw_layout h prm ci st)))
                = routed_tracks (emitted st)
                  @ replicate (length vdd) (fst (tracks_at h used hm_lp vdd vss 0))
                  @ replicate (length vss) (snd (tracks_at h used hm_lp vdd vss 0))
                  @ concat (map (\<lambda>j. [fst (tracks_at h used hm_lp vdd vss j), snd (tracks_at h used hm_lp vdd vss j)])
                             [1..<Suc (nat (port_layer - used - 1))])
              \<and> pins (emitted (snd (draw_layout h prm ci st)))
                  = pins (emitted st)
                    @ [(''VDD'', fst (wires_after h used hm_lp vdd vss (nat (port_layer - used - 1))), True),
                       (''VSS'', snd (wires_after h used hm_lp vdd vss (nat (port_layer - used - 1))), True)]"
      unfolding w A(2) t r4 using A(3) [OF pm] by (simp only: fst_conv snd_conv simp_thms)
  qed
  obtain lo hi where tw: "tracks_at h used hm_lp vdd vss k = tracks_of_window h (used + 1 + int k) lo hi"
    using tracks_at_window by blast
  have 5: "\<exists>lo hi.
               tracks_at h used hm_lp vdd vss k = tracks_of_window h (used + 1 + int k) lo hi
               \<and> tid_base (fst (tracks_at h used hm_lp vdd vss k))
                   = spread_wires h (used + 1 + int k)
                       (replicate (nat (2 * tid_num (fst (tracks_at h used hm_lp vdd vss k)))) ''sup'')
                       (coord_to_track h (used + 1 + int k) lo GREATER_EQ)
                       (coord_to_track h (used + 1 + int k) hi LESS_EQ) (''sup'', ''sup'') ! 0
               \<and> tid_base (snd (tracks_at h used hm_lp vdd vss k))
                   = spread_wires h (used + 1 + int k)
                       (replicate (nat (2 * tid_num (fst (tracks_at h used hm_lp vdd vss k)))) ''sup'')
                       (coord_to_track h (used + 1 + int k) lo GREATER_EQ)
                       (coord_to_track h (used + 1 + int k) hi LESS_EQ) (''sup'', ''sup'') ! 1"
    using tw tracks_of_window_fields(5,6) [of h "used + 1 + int k" lo hi]
    by (intro exI [of _ lo] exI [of _ hi]) (simp only:)
  show ?thesis by (intro conjI) (rule 1, rule 2, rule 3, rule 4, rule 5)
qed

lemma demo_merge_free: "merge_order_free demo_host"
proof -
  have r: "demo_merge ws = demo_merge ws'" if m: "mset ws = mset ws'" for ws ws'
  proof -
    have "length ws = length ws'" using m by (rule mset_eq_length)
    then have e: "ws = [] \<longleftrightarrow> ws' = []" by (metis length_0_conv)
    have s: "set (map f ws) = set (map f ws')" for f :: "WireArray \<Rightarrow> int"
      using mset_eq_setD [OF m] by simp
    show ?thesis
      unfolding demo_merge_def e
      by (simp only: s)
  qed
  have c: "connect_wires demo_host = demo_merge" by (simp add: demo_host_def)
  show ?thesis
    unfolding merge_order_free_def c by (intro allI impI) (rule r)
qed



theorem vdd_then_vss_witness:
  "fst (draw_layout (demo_host\<lparr>get_all_port_pins := \<lambda>m name layer. rev (demo_pins m name layer)\<rparr>)
          demo_params demo_info ClampStatic_init) = None
   \<and> routed_tracks (emitted (snd (draw_layout
          (demo_host\<lparr>get_all_port_pins := \<lambda>m name layer. rev (demo_pins m name layer)\<rparr>)
          demo_params demo_info ClampStatic_init)))
       = [\<lparr>tid_layer = 3, tid_base = 1, tid_width = 2, tid_num = 4, tid_pitch = 2\<rparr>,
          \<lparr>tid_layer = 3, tid_base = 1, tid_width = 2, tid_num = 4, tid_pitch = 2\<rparr>,
          \<lparr>tid_layer = 3, tid_base = 2, tid_width = 2, tid_num = 4, tid_pitch = 2\<rparr>,
          \<lparr>tid_layer = 4, tid_base = 1, tid_width = 2, tid_num = 3, tid_pitch = 2\<rparr>,
          \<lparr>tid_layer = 4, tid_base = 2, tid_width = 2, tid_num = 3, tid_pitch = 2\<rparr>]
   \<and> pins (emitted (snd (draw_layout
          (demo_host\<lparr>get_all_port_pins := \<lambda>m name layer. rev (demo_pins m name layer)\<rparr>)
          demo_params demo_info ClampStatic_init)))
       = [(''VDD'', \<lparr>warr_tid = \<lparr>tid_layer = 4, tid_base = 1, tid_width = 2, tid_num = 3, tid_pitch = 2\<rparr>,
                      warr_lower = 10, warr_upper = 70\<rparr>, True),
          (''VSS'', \<lparr>warr_tid = \<lparr>tid_layer = 4, tid_base = 2, tid_width = 2, tid_num = 3, tid_pitch = 2\<rparr>,
                      warr_lower = 20, warr_upper = 80\<rparr>, True)]"
proof -
  let ?g = "\<lambda>m name layer. rev (demo_pins m name layer)"
  obtain st1 st2 where pl: "placement demo_host demo_params demo_info ClampStatic_init = (Inr (4, demo_master), st1)"
    and ok: "fst (draw_layout demo_host demo_params demo_info ClampStatic_init) = None"
    using demo_run by auto
  have u: "used_port_layer demo_info = 2" by (simp add: demo_info_def)
  have g: "get_all_port_pins demo_host = demo_pins" by (simp add: demo_host_def)
  have lp: "get_lay_purp_list demo_host (used_port_layer demo_info) = (''metal'', ''drawing'') # []"
    by (simp add: demo_host_def)
  have perm: "\<forall>m name layer. mset (?g m name layer) = mset (get_all_port_pins demo_host m name layer)"
    unfolding g by simp
  have k: "nat (4 - 2 - 1) = (1 :: nat)" by simp
  have i: "pins (emitted ClampStatic_init) = []" by (simp add: ClampStatic_init_def)
  note t = vdd_then_vss [OF pl lp perm demo_merge_free, of 0, unfolded u g k demo_wires_after i]
  have a: "fst (draw_layout (demo_host\<lparr>get_all_port_pins := ?g\<rparr>) demo_params demo_info ClampStatic_init) = None"
    using t [THEN conjunct1] ok by simp
  have b: "routed_tracks (emitted (snd (draw_layout (demo_host\<lparr>get_all_port_pins := ?g\<rparr>)
              demo_params demo_info ClampStatic_init)))
       = [\<lparr>tid_layer = 3, tid_base = 1, tid_width = 2, tid_num = 4, tid_pitch = 2\<rparr>,
          \<lparr>tid_layer = 3, tid_base = 1, tid_width = 2, tid_num = 4, tid_pitch = 2\<rparr>,
          \<lparr>tid_layer = 3, tid_base = 2, tid_width = 2, tid_num = 4, tid_pitch = 2\<rparr>,
          \<lparr>tid_layer = 4, tid_base = 1, tid_width = 2, tid_num = 3, tid_pitch = 2\<rparr>,
          \<lparr>tid_layer = 4, tid_base = 2, tid_width = 2, tid_num = 3, tid_pitch = 2\<rparr>]"
    using t [THEN conjunct2, THEN conjunct1] by (simp only: demo_routed_tracks)
  have c: "pins (emitted (snd (draw_layout demo_host demo_params demo_info ClampStatic_init)))
       = [(''VDD'', \<lparr>warr_tid = \<lparr>tid_layer = 4, tid_base = 1, tid_width = 2, tid_num = 3, tid_pitch = 2\<rparr>,
                      warr_lower = 10, warr_upper = 70\<rparr>, True),
          (''VSS'', \<lparr>warr_tid = \<lparr>tid_layer = 4, tid_base = 2, tid_width = 2, tid_num = 3, tid_pitch = 2\<rparr>,
                      warr_lower = 20, warr_upper = 80\<rparr>, True)]"
    using t [THEN conjunct2, THEN conjunct2, THEN conjunct2, THEN conjunct1] ok
    by (simp only: fst_conv snd_conv simp_thms append_Nil)
  have d: "pins (emitted (snd (draw_layout (demo_host\<lparr>get_all_port_pins := ?g\<rparr>)
              demo_params demo_info ClampStatic_init)))
       = pins (emitted (snd (draw_layout demo_host demo_params demo_info ClampStatic_init)))"
    using t [THEN conjunct2, THEN conjunct2, THEN conjunct1] .
  show ?thesis using a b c d by (simp only: simp_thms)
qed

end
